theory Spec2Isabelle
  imports Complex_Main "HOL-Library.Log_Nat" "HOL-Library.Product_Lexorder"
    "HOL-Library.Multiset"
begin

section \<open>Numbers of the source language\<close>

text \<open>
  A TypeScript \<open>number\<close> is an IEEE 754 binary64 value. It is modelled as a value that
  is not a number, an infinity with its sign, or a finite value given by its sign bit
  (\<open>True\<close> is negative) and its magnitude, a non-negative rational. The two zeros are
  \<open>Fin False 0\<close> and \<open>Fin True 0\<close>.
\<close>

datatype jsnum = NaN | Inf bool | Fin bool rat

definition is_finite :: "jsnum \<Rightarrow> bool" where
  "is_finite x = (case x of NaN \<Rightarrow> False | Inf s \<Rightarrow> False | Fin s m \<Rightarrow> True)"

text \<open>
  The exponent of a positive rational \<open>x\<close>, that is the integer \<open>k\<close> with
  \<open>2\<^sup>k \<le> x < 2\<^sup>k\<^sup>+\<^sup>1\<close>, from the bit lengths of numerator and denominator.
\<close>

definition floor_log2 :: "rat \<Rightarrow> int" where
  "floor_log2 x =
     (case quotient_of x of (a, b) \<Rightarrow>
        let k = bitlen a - bitlen b in if 2 powi k \<le> x then k else k - 1)"

text \<open>Rounding to the nearest integer, a tie going to the even one.\<close>

definition round_half_even :: "rat \<Rightarrow> int" where
  "round_half_even x =
     (let f = \<lfloor>x\<rfloor>; d = x - of_int f
      in if d < 1 / 2 then f
         else if 1 / 2 < d then f + 1
         else if even f then f else f + 1)"

text \<open>
  The parameters of binary64: 52 fraction bits after the leading bit, the least exponent
  of a normal number, and the magnitude from which rounding gives infinity.
\<close>

definition fraction_bits :: int where
  "fraction_bits = 52"

definition min_exponent :: int where
  "min_exponent = - 1022"

definition overflow_threshold :: rat where
  "overflow_threshold = 2 powi 1024"

text \<open>
  The binary64 value of a non-negative rational magnitude with a sign: round to nearest,
  ties to even, to a multiple of \<open>2\<^sup>e\<^sup>-\<^sup>5\<^sup>2\<close> where \<open>e\<close> is the exponent of the magnitude but
  not below the least exponent (so the subnormal numbers are the multiples of
  \<open>2\<^sup>-\<^sup>1\<^sup>0\<^sup>7\<^sup>4\<close>).
\<close>

definition round_binary64 :: "bool \<Rightarrow> rat \<Rightarrow> jsnum" where
  "round_binary64 s x =
     (if x \<le> 0 then Fin s 0
      else
        let e = max (floor_log2 x) min_exponent;
            u = 2 powi (e - fraction_bits);
            y = of_int (round_half_even (x / u)) * u
        in if overflow_threshold \<le> y then Inf s else Fin s y)"

text \<open>The operators \<open>/\<close> and \<open>*\<close> on numbers.\<close>

fun js_div :: "jsnum \<Rightarrow> jsnum \<Rightarrow> jsnum" where
  "js_div NaN y = NaN"
| "js_div x NaN = NaN"
| "js_div (Inf s) (Inf t) = NaN"
| "js_div (Inf s) (Fin t n) = Inf (s \<noteq> t)"
| "js_div (Fin s m) (Inf t) = Fin (s \<noteq> t) 0"
| "js_div (Fin s m) (Fin t n) =
     (if n = 0 then (if m = 0 then NaN else Inf (s \<noteq> t))
      else round_binary64 (s \<noteq> t) (m / n))"

fun js_mul :: "jsnum \<Rightarrow> jsnum \<Rightarrow> jsnum" where
  "js_mul NaN y = NaN"
| "js_mul x NaN = NaN"
| "js_mul (Inf s) (Inf t) = Inf (s \<noteq> t)"
| "js_mul (Inf s) (Fin t n) = (if n = 0 then NaN else Inf (s \<noteq> t))"
| "js_mul (Fin s m) (Inf t) = (if m = 0 then NaN else Inf (s \<noteq> t))"
| "js_mul (Fin s m) (Fin t n) = round_binary64 (s \<noteq> t) (m * n)"

text \<open>
  The text \<open>x.toFixed(2)\<close> returns, by what it denotes: the name of a value that is not
  finite; for a magnitude from \<open>10\<^sup>2\<^sup>1\<close> on the shortest text that reads back as \<open>x\<close>;
  otherwise a sign (set only for \<open>x < 0\<close>) and the digits of the integer \<open>n\<close> for which
  \<open>n / 100\<close> is nearest to the magnitude, the larger \<open>n\<close> on a tie.
\<close>

datatype number_text =
    TextNaN
  | TextInfinity bool
  | TextExact bool rat
  | TextHundredths bool int

definition toFixed2 :: "jsnum \<Rightarrow> number_text" where
  "toFixed2 x =
     (case x of
        NaN \<Rightarrow> TextNaN
      | Inf s \<Rightarrow> TextInfinity s
      | Fin s m \<Rightarrow>
          if 10 ^ 21 \<le> m then TextExact s m
          else TextHundredths (s \<and> 0 < m) \<lfloor>m * 100 + 1 / 2\<rfloor>)"

text \<open>\<open>Number(text)\<close> on such a text: the binary64 value nearest to what it denotes.\<close>

definition Number :: "number_text \<Rightarrow> jsnum" where
  "Number t =
     (case t of
        TextNaN \<Rightarrow> NaN
      | TextInfinity s \<Rightarrow> Inf s
      | TextExact s m \<Rightarrow> Fin s m
      | TextHundredths s n \<Rightarrow> round_binary64 s (of_int n / 100))"

section \<open>The cost estimator (lib/costCalculator.ts)\<close>

record CostSettings =
  mpg :: jsnum
  pricePerGallon :: jsnum

text \<open>What a \<open>throw\<close> or a rejected promise carries.\<close>

datatype js_error =
    TypeError
  | NetworkError
  | SyntaxError
  | Error string

text \<open>
  Both functions return a number on every path; the result type has the exception as its
  other summand, so that signalling an error is something the model could say.
\<close>

definition calculateFuelCost :: "jsnum \<Rightarrow> CostSettings \<Rightarrow> js_error + jsnum" where
  "calculateFuelCost distanceInMiles settings =
     (let gallonsNeeded = js_div distanceInMiles (mpg settings);
          totalCost = js_mul gallonsNeeded (pricePerGallon settings)
      in Inr (Number (toFixed2 totalCost)))"

definition calculateGallonsNeeded :: "jsnum \<Rightarrow> jsnum \<Rightarrow> js_error + jsnum" where
  "calculateGallonsNeeded distanceInMiles mpg' =
     Inr (Number (toFixed2 (js_div distanceInMiles mpg')))"

text \<open>
  Following the spec's words, "rounded to 2 decimal places": the number nearest to the
  nearest multiple of \<open>0.01\<close> (a tie going away from zero); a value that is not finite
  stays as it is.
\<close>

definition rounded_to_2_decimals :: "jsnum \<Rightarrow> jsnum" where
  "rounded_to_2_decimals x =
     (case x of
        NaN \<Rightarrow> NaN
      | Inf s \<Rightarrow> Inf s
      | Fin s m \<Rightarrow> round_binary64 s (of_int \<lfloor>m * 100 + 1 / 2\<rfloor> / 100))"

section \<open>The waypoint store (hooks/useWaypoints.ts)\<close>

text \<open>The interface \<open>Waypoint\<close> of types/travel.ts; \<open>name\<close> is optional.\<close>

record Waypoint =
  wp_id :: string
  lng :: jsnum
  lat :: jsnum
  name :: "string option"

text \<open>Decimal rendering of a non-negative integer, as a template literal prints it.\<close>

fun decimal :: "nat \<Rightarrow> string" where
  "decimal n =
     (if n < 10 then [''0123456789'' ! n]
      else decimal (n div 10) @ [''0123456789'' ! (n mod 10)])"

text \<open>
  \<open>addWaypoint\<close> up to its first \<open>await\<close>: the id is built from the clock reading
  \<open>Date.now()\<close> (milliseconds, passed in as \<open>now\<close>), the waypoint gets the placeholder
  name and is appended to the previous sequence.
\<close>

definition new_waypoint_id :: "nat \<Rightarrow> string" where
  "new_waypoint_id now = ''waypoint-'' @ decimal now"

definition addWaypoint :: "nat \<Rightarrow> jsnum \<Rightarrow> jsnum \<Rightarrow> Waypoint list \<Rightarrow> Waypoint list" where
  "addWaypoint now lng' lat' prev =
     prev @ [\<lparr>wp_id = new_waypoint_id now, lng = lng', lat = lat', name = Some ''...''\<rparr>]"

text \<open>
  The continuation of \<open>addWaypoint\<close> after the reverse lookup settles: the name of every
  waypoint carrying the id is replaced, by the resolved name or by the fallback label.
\<close>

definition addWaypoint_named :: "string \<Rightarrow> string \<Rightarrow> Waypoint list \<Rightarrow> Waypoint list" where
  "addWaypoint_named i locationName prev =
     map (\<lambda>w. if wp_id w = i then w\<lparr>name := Some locationName\<rparr> else w) prev"

definition removeWaypoint :: "string \<Rightarrow> Waypoint list \<Rightarrow> Waypoint list" where
  "removeWaypoint i prev = filter (\<lambda>w. wp_id w \<noteq> i) prev"

definition clearWaypoints :: "Waypoint list \<Rightarrow> Waypoint list" where
  "clearWaypoints prev = []"

section \<open>Values, exceptions and the network\<close>

text \<open>
  A value as \<open>response.json()\<close> can deliver it (the source types it \<open>any\<close>), together
  with \<open>undefined\<close>, which reading an absent property yields. An object is the list of
  its own properties.
\<close>

datatype jsval =
    JUndefined
  | JNull
  | JBool bool
  | JNum jsnum
  | JStr string
  | JArr "jsval list"
  | JObj "(string \<times> jsval) list"

text \<open>
  The outcome of \<open>fetch(url)\<close>: the promise rejects, or it resolves to a response with
  its \<open>ok\<close> flag, its status text and the value \<open>response.json()\<close> resolves to
  (\<open>None\<close> when the body is no JSON text and \<open>json()\<close> rejects).
\<close>

datatype fetch_result = Rejects | Response bool string "jsval option"

text \<open>
  The requests of the two modelled clients, by their parts: the number-to-text conversions
  of the template literals are left inside them.
\<close>

record suggest_params =
  sp_q :: string
  access_token :: string
  session_token :: string
  limit :: jsnum
  types :: string
  proximity :: "(jsnum \<times> jsnum) option"
  country :: "string list option"

datatype url =
    DirectionsUrl "(jsnum \<times> jsnum) list" "string option"
  | SuggestUrl suggest_params

text \<open>What a call leaves behind besides its result, in order.\<close>

datatype effect = Request url | ConsoleError

text \<open>
  Parts of the language's runtime that the model does not define: the conversion of a
  value that is no number to a number, the conversion of a value that is no string to a
  string, and the order in which \<open>Array.prototype.sort\<close> leaves an array when the
  comparison function is not consistent. They are taken as given, and every result below
  holds for all of them.
\<close>

record 'a runtime =
  toNumber :: "jsval \<Rightarrow> jsnum"
  toString :: "jsval \<Rightarrow> string"
  array_sort :: "('a \<Rightarrow> 'a \<Rightarrow> jsnum) \<Rightarrow> 'a list \<Rightarrow> 'a list"

definition bindE :: "'e + 'a \<Rightarrow> ('a \<Rightarrow> 'e + 'b) \<Rightarrow> 'e + 'b" where
  "bindE m f = (case m of Inl e \<Rightarrow> Inl e | Inr x \<Rightarrow> f x)"

text \<open>The truth value of a value in a condition, \<open>&&\<close> or \<open>||\<close>.\<close>

fun truthy :: "jsval \<Rightarrow> bool" where
  "truthy JUndefined = False"
| "truthy JNull = False"
| "truthy (JBool b) = b"
| "truthy (JNum NaN) = False"
| "truthy (JNum (Inf s)) = True"
| "truthy (JNum (Fin s m)) = (m \<noteq> 0)"
| "truthy (JStr s) = (s \<noteq> [])"
| "truthy (JArr xs) = True"
| "truthy (JObj kvs) = True"

text \<open>
  Reading the property \<open>k\<close> of a value, for the keys the modelled functions read
  (\<open>routes\<close>, \<open>suggestions\<close>, \<open>length\<close>, \<open>distance\<close>, \<open>name\<close>, ...; all but
  \<open>length\<close> are on no built-in prototype): it throws on \<open>undefined\<close> and \<open>null\<close>,
  and yields \<open>undefined\<close> where the property is absent.
\<close>

definition own_prop :: "(string \<times> jsval) list \<Rightarrow> string \<Rightarrow> jsval" where
  "own_prop kvs k = (case map_of kvs k of None \<Rightarrow> JUndefined | Some v \<Rightarrow> v)"

fun get_prop :: "jsval \<Rightarrow> string \<Rightarrow> js_error + jsval" where
  "get_prop JUndefined k = Inl TypeError"
| "get_prop JNull k = Inl TypeError"
| "get_prop (JObj kvs) k = Inr (own_prop kvs k)"
| "get_prop (JArr xs) k =
     Inr (if k = ''length'' then JNum (Fin False (of_nat (length xs))) else JUndefined)"
| "get_prop (JStr s) k =
     Inr (if k = ''length'' then JNum (Fin False (of_nat (length s))) else JUndefined)"
| "get_prop (JBool b) k = Inr JUndefined"
| "get_prop (JNum n) k = Inr JUndefined"

text \<open>The element access \<open>v[0]\<close>.\<close>

fun get_first :: "jsval \<Rightarrow> js_error + jsval" where
  "get_first JUndefined = Inl TypeError"
| "get_first JNull = Inl TypeError"
| "get_first (JArr xs) = Inr (case xs of [] \<Rightarrow> JUndefined | x # _ \<Rightarrow> x)"
| "get_first (JStr s) = Inr (case s of [] \<Rightarrow> JUndefined | c # _ \<Rightarrow> JStr [c])"
| "get_first (JObj kvs) = Inr (own_prop kvs ''0'')"
| "get_first (JBool b) = Inr JUndefined"
| "get_first (JNum n) = Inr JUndefined"

text \<open>The comparison \<open>v > 0\<close>: a number is compared, any other value is converted first.\<close>

definition num_gt_zero :: "jsnum \<Rightarrow> bool" where
  "num_gt_zero n = (case n of NaN \<Rightarrow> False | Inf s \<Rightarrow> \<not> s | Fin s m \<Rightarrow> \<not> s \<and> 0 < m)"

definition gt_zero :: "'a runtime \<Rightarrow> jsval \<Rightarrow> bool" where
  "gt_zero rt v = num_gt_zero (case v of JNum n \<Rightarrow> n | _ \<Rightarrow> toNumber rt v)"

section \<open>The route resolver (lib/routing.ts)\<close>

text \<open>The interface \<open>RouteData\<close>; at run time the fields hold what the provider sent.\<close>

record RouteData =
  distance :: jsval
  duration :: jsval
  geometry :: jsval

text \<open>The body of the \<open>try\<close> block of \<open>fetchRoute\<close>, after \<open>fetch\<close> has settled.\<close>

definition fetchRoute_try :: "'a runtime \<Rightarrow> fetch_result \<Rightarrow> js_error + RouteData option" where
  "fetchRoute_try rt res =
     (case res of
        Rejects \<Rightarrow> Inl NetworkError
      | Response ok statusText json \<Rightarrow>
          (case json of
             None \<Rightarrow> Inl SyntaxError
           | Some data \<Rightarrow>
               bindE (get_prop data ''routes'') (\<lambda>routes.
                 if \<not> truthy routes then Inr None
                 else
                   bindE (get_prop routes ''length'') (\<lambda>len.
                     if gt_zero rt len then
                       bindE (get_first routes) (\<lambda>route.
                       bindE (get_prop route ''distance'') (\<lambda>d.
                       bindE (get_prop route ''duration'') (\<lambda>t.
                       bindE (get_prop route ''geometry'') (\<lambda>g.
                         Inr (Some \<lparr>distance = d, duration = t, geometry = g\<rparr>)))))
                     else Inr None))))"

text \<open>
  \<open>fetchRoute\<close>: \<open>token\<close> is the environment variable read into the URL, \<open>net\<close> answers
  a request. The result is the value returned (\<open>Inr\<close>, with \<open>None\<close> for \<open>null\<close>) or the
  exception thrown (\<open>Inl\<close>), and the effects.
\<close>

definition fetchRoute ::
  "'a runtime \<Rightarrow> string option \<Rightarrow> (url \<Rightarrow> fetch_result) \<Rightarrow> Waypoint list
     \<Rightarrow> (js_error + RouteData option) \<times> effect list" where
  "fetchRoute rt token net waypoints =
     (if length waypoints < 2 then (Inr None, [])
      else
        let coordinates = map (\<lambda>w. (lng w, lat w)) waypoints;
            u = DirectionsUrl coordinates token
        in case fetchRoute_try rt (net u) of
             Inr r \<Rightarrow> (Inr r, [Request u])
           | Inl e \<Rightarrow> (Inr None, [Request u, ConsoleError]))"

section \<open>The route hook (hooks/useRoute.ts)\<close>

text \<open>
  The hook runs on the single-threaded event loop, so its behaviour is a sequence of
  events, each handled to completion. The state holds the two \<open>useState\<close> cells
  \<open>route\<close> and \<open>loading\<close> and what the closures of the effect keep alive: for every
  call of \<open>getRoute\<close> that still awaits \<open>fetchRoute\<close>, the waypoints it was started
  with and the \<open>cancelled\<close> variable of its effect run; and the cleanup function React
  holds, named by the effect run that returned it.
\<close>

record pending =
  run_id :: nat
  captured :: "Waypoint list"
  cancelled :: bool

record hook_state =
  route_cell :: "RouteData option"
  loading_cell :: bool
  in_flight :: "pending list"
  cleanup :: "nat option"
  runs :: nat

definition initial_hook_state :: hook_state where
  "initial_hook_state =
     \<lparr>route_cell = None, loading_cell = False, in_flight = [], cleanup = None, runs = 0\<rparr>"

text \<open>
  \<open>Render ws\<close>: a render in which the dependency \<open>waypoints\<close> is a new array \<open>ws\<close>
  (the mount included), so React runs the held cleanup and then the effect.
  \<open>Settle i r\<close>: the promise \<open>fetchRoute\<close> returned to effect run \<open>i\<close> resolves to
  \<open>r\<close> and \<open>getRoute\<close> resumes after its \<open>await\<close>.
\<close>

datatype hook_event = Render "Waypoint list" | Settle nat "RouteData option"

text \<open>The cleanup function: \<open>cancelled = true\<close> in the effect run that returned it.\<close>

definition run_cleanup :: "hook_state \<Rightarrow> hook_state" where
  "run_cleanup s =
     (case cleanup s of
        None \<Rightarrow> s
      | Some i \<Rightarrow>
          s\<lparr>in_flight := map (\<lambda>p. if run_id p = i then p\<lparr>cancelled := True\<rparr> else p)
                             (in_flight s),
            cleanup := None\<rparr>)"

text \<open>
  The effect: with fewer than two waypoints it clears the route and returns no cleanup;
  otherwise \<open>getRoute()\<close> sets \<open>loading\<close> and starts \<open>fetchRoute\<close>, and the effect
  returns its cleanup.
\<close>

definition use_effect :: "Waypoint list \<Rightarrow> hook_state \<Rightarrow> hook_state" where
  "use_effect ws s =
     (if length ws < 2 then s\<lparr>route_cell := None\<rparr>
      else s\<lparr>loading_cell := True,
             in_flight := in_flight s @ [\<lparr>run_id = runs s, captured = ws, cancelled = False\<rparr>],
             cleanup := Some (runs s),
             runs := Suc (runs s)\<rparr>)"

text \<open>The rest of \<open>getRoute\<close> after the \<open>await\<close>.\<close>

definition resume :: "pending \<Rightarrow> RouteData option \<Rightarrow> hook_state \<Rightarrow> hook_state" where
  "resume p routeData s =
     (if \<not> cancelled p then s\<lparr>route_cell := routeData, loading_cell := False\<rparr> else s)"

fun hook_step :: "hook_event \<Rightarrow> hook_state \<Rightarrow> hook_state" where
  "hook_step (Render ws) s = use_effect ws (run_cleanup s)"
| "hook_step (Settle i r) s =
     (case find (\<lambda>p. run_id p = i) (in_flight s) of
        None \<Rightarrow> s
      | Some p \<Rightarrow> resume p r (s\<lparr>in_flight := filter (\<lambda>p. run_id p \<noteq> i) (in_flight s)\<rparr>))"

fun run_events :: "hook_event list \<Rightarrow> hook_state \<Rightarrow> hook_state" where
  "run_events [] s = s"
| "run_events (e # es) s = run_events es (hook_step e s)"

text \<open>The effect run whose promise an event settles, if it is such an event.\<close>

fun settled :: "hook_event \<Rightarrow> nat option" where
  "settled (Render ws) = None"
| "settled (Settle i r) = Some i"

definition is_settle :: "hook_event \<Rightarrow> bool" where
  "is_settle e = (settled e \<noteq> None)"

text \<open>
  What holds in every state the hook reaches: effect runs are numbered apart, and a call
  whose \<open>cancelled\<close> is still false belongs to the effect run whose cleanup is held.
\<close>

definition hook_inv :: "hook_state \<Rightarrow> bool" where
  "hook_inv s =
     (distinct (map run_id (in_flight s))
      \<and> (\<forall>p \<in> set (in_flight s). run_id p < runs s)
      \<and> (\<forall>p \<in> set (in_flight s). \<not> cancelled p \<longrightarrow> cleanup s = Some (run_id p)))"

section \<open>Autocomplete suggestions (lib/mapboxSearch.ts)\<close>

record SearchSuggestion =
  sg_name :: jsval
  mapboxId :: jsval
  placeFormatted :: jsval
  featureType :: jsval

record suggest_options =
  opt_limit :: "jsnum option"
  opt_proximity :: "(jsnum \<times> jsnum) option"
  opt_country :: "string list option"

definition typePriority :: "(string \<times> nat) list" where
  "typePriority = [(''place'', 0), (''region'', 1), (''postcode'', 2), (''address'', 3)]"

definition MAX_SAFE_INTEGER :: nat where
  "MAX_SAFE_INTEGER = 9007199254740991"

text \<open>
  \<open>typePriority\<close> is an object literal, so a lookup also finds the members it inherits
  from \<open>Object.prototype\<close>; such a member is no number and is not replaced by \<open>??\<close>.
\<close>

definition object_prototype_keys :: "string list" where
  "object_prototype_keys =
     [''constructor'', ''hasOwnProperty'', ''isPrototypeOf'', ''propertyIsEnumerable'',
      ''toLocaleString'', ''toString'', ''valueOf'', ''__proto__'', ''__defineGetter__'',
      ''__defineSetter__'', ''__lookupGetter__'', ''__lookupSetter__'']"

datatype priority = Prio nat | Inherited string

text \<open>\<open>typePriority[suggestion.featureType || ''] ?? Number.MAX_SAFE_INTEGER\<close>\<close>

definition priority_of :: "'a runtime \<Rightarrow> jsval \<Rightarrow> priority" where
  "priority_of rt ft =
     (let key = (if truthy ft then ft else JStr []);
          k = (case key of JStr s \<Rightarrow> s | _ \<Rightarrow> toString rt key)
      in case map_of typePriority k of
           Some n \<Rightarrow> Prio n
         | None \<Rightarrow> if k \<in> set object_prototype_keys then Inherited k
                    else Prio MAX_SAFE_INTEGER)"

text \<open>A suggestion with its \<open>originalIndex\<close> and its \<open>priority\<close>.\<close>

type_synonym ranked = "SearchSuggestion \<times> nat \<times> priority"

definition is_number :: "priority \<Rightarrow> bool" where
  "is_number p = (case p of Prio n \<Rightarrow> True | Inherited k \<Rightarrow> False)"

definition int_num :: "int \<Rightarrow> jsnum" where
  "int_num i = Fin (i < 0) (of_int \<bar>i\<bar>)"

text \<open>The comparison function handed to \<open>sort\<close>; a difference with a non-number is NaN.\<close>

definition compare_ranked :: "ranked \<Rightarrow> ranked \<Rightarrow> jsnum" where
  "compare_ranked a b =
     (case (a, b) of ((sa, ia, pa), (sb, ib, pb)) \<Rightarrow>
        if pa = pb then int_num (int ia - int ib)
        else (case (pa, pb) of
                (Prio x, Prio y) \<Rightarrow> int_num (int x - int y)
              | _ \<Rightarrow> NaN))"

definition rank_key :: "ranked \<Rightarrow> nat \<times> nat" where
  "rank_key a = (case a of (s, i, p) \<Rightarrow> ((case p of Prio n \<Rightarrow> n | Inherited k \<Rightarrow> 0), i))"

text \<open>
  The sort: when every priority is a number the comparison function is a total order on
  the entries (by priority, then by original index) and the result is the sorted array.
\<close>

definition sort_ranked :: "ranked runtime \<Rightarrow> ranked list \<Rightarrow> ranked list" where
  "sort_ranked rt xs =
     (if list_all (\<lambda>a. is_number (snd (snd a))) xs then sort_key rank_key xs
      else array_sort rt compare_ranked xs)"

text \<open>The callback of the first \<open>map\<close>: four property reads on one suggestion.\<close>

definition raw_suggestion :: "jsval \<Rightarrow> js_error + SearchSuggestion" where
  "raw_suggestion suggestion =
     bindE (get_prop suggestion ''name'') (\<lambda>n.
     bindE (get_prop suggestion ''mapbox_id'') (\<lambda>m.
     bindE (get_prop suggestion ''place_formatted'') (\<lambda>p.
     bindE (get_prop suggestion ''feature_type'') (\<lambda>f.
       Inr \<lparr>sg_name = n, mapboxId = m, placeFormatted = p, featureType = f\<rparr>))))"

text \<open>\<open>Array.prototype.map\<close> with a callback that may throw: the first exception ends it.\<close>

fun map_throwing :: "('a \<Rightarrow> 'e + 'b) \<Rightarrow> 'a list \<Rightarrow> 'e + 'b list" where
  "map_throwing f [] = Inr []"
| "map_throwing f (x # xs) =
     bindE (f x) (\<lambda>y. bindE (map_throwing f xs) (\<lambda>ys. Inr (y # ys)))"

text \<open>\<open>(data.suggestions || []).map\<close>: only an array has a \<open>map\<close> that can be called.\<close>

definition suggestions_array :: "jsval \<Rightarrow> js_error + jsval list" where
  "suggestions_array v =
     (if truthy v then (case v of JArr xs \<Rightarrow> Inr xs | _ \<Rightarrow> Inl TypeError) else Inr [])"

text \<open>The body of the \<open>try\<close> block of \<open>getSuggestions\<close>, after \<open>fetch\<close> has settled.\<close>

definition getSuggestions_try ::
  "ranked runtime \<Rightarrow> fetch_result \<Rightarrow> js_error + SearchSuggestion list" where
  "getSuggestions_try rt res =
     (case res of
        Rejects \<Rightarrow> Inl NetworkError
      | Response ok statusText json \<Rightarrow>
          if \<not> ok then Inl (Error (''Search suggestions failed: '' @ statusText))
          else
            (case json of
               None \<Rightarrow> Inl SyntaxError
             | Some data \<Rightarrow>
                 bindE (get_prop data ''suggestions'') (\<lambda>sv.
                 bindE (suggestions_array sv) (\<lambda>arr.
                 bindE (map_throwing raw_suggestion arr) (\<lambda>rawSuggestions.
                   let indexed = zip rawSuggestions [0 ..< length rawSuggestions];
                       ranked = map (\<lambda>(s, i). (s, i, priority_of rt (featureType s))) indexed;
                       sortedSuggestions = map fst (sort_ranked rt ranked)
                   in Inr sortedSuggestions)))))"

definition suggest_url :: "string \<Rightarrow> string \<Rightarrow> string \<Rightarrow> suggest_options option \<Rightarrow> url" where
  "suggest_url accessToken query sessionToken options =
     SuggestUrl
       \<lparr>sp_q = query,
        access_token = accessToken,
        session_token = sessionToken,
        limit = (case options of
                   None \<Rightarrow> Fin False 5
                 | Some opts \<Rightarrow>
                     (case opt_limit opts of
                        None \<Rightarrow> Fin False 5
                      | Some l \<Rightarrow> if truthy (JNum l) then l else Fin False 5)),
        types = ''place,region,postcode,address'',
        proximity = (case options of None \<Rightarrow> None | Some opts \<Rightarrow> opt_proximity opts),
        country = (case options of
                     None \<Rightarrow> None
                   | Some opts \<Rightarrow>
                       (case opt_country opts of
                          None \<Rightarrow> None
                        | Some cs \<Rightarrow> if length cs > 0 then Some cs else None))\<rparr>"

text \<open>
  \<open>getSuggestions\<close>: \<open>token\<close> is the environment variable \<open>NEXT_PUBLIC_MAPBOX_TOKEN\<close>
  (\<open>None\<close> when it is not set).
\<close>

definition getSuggestions ::
  "ranked runtime \<Rightarrow> string option \<Rightarrow> (url \<Rightarrow> fetch_result) \<Rightarrow> string \<Rightarrow> string
     \<Rightarrow> suggest_options option \<Rightarrow> (js_error + SearchSuggestion list) \<times> effect list" where
  "getSuggestions rt token net query sessionToken options =
     (case token of
        None \<Rightarrow> (Inr [], [ConsoleError])
      | Some accessToken \<Rightarrow>
          if accessToken = [] then (Inr [], [ConsoleError])
          else
            let u = suggest_url accessToken query sessionToken options
            in (case getSuggestions_try rt (net u) of
                  Inr r \<Rightarrow> (Inr r, [Request u])
                | Inl e \<Rightarrow> (Inr [], [Request u, ConsoleError])))"

section \<open>Route persistence: the tables (lib/db/schema.ts)\<close>

text \<open>
  The two tables with the columns the procedures read or write. A \<open>uuid\<close> is a number;
  \<open>defaultRandom()\<close> is a supply of unused ones, kept in the database state. A
  \<open>decimal\<close> column holds a rational. Columns that are only ever defaulted
  (\<open>is_public\<close>; description and timestamps of a waypoint) are left out.
\<close>

type_synonym uuid = nat

record Route =
  r_id :: uuid
  user_id :: string
  r_name :: string
  description :: "string option"
  created_at :: nat
  updated_at :: nat

record WaypointRow =
  w_id :: uuid
  route_id :: uuid
  position :: int
  latitude :: rat
  longitude :: rat
  w_name :: "string option"

record database =
  routes :: "Route list"
  waypoints :: "WaypointRow list"
  next_uuid :: uuid

definition empty_database :: database where
  "empty_database = \<lparr>routes = [], waypoints = [], next_uuid = 0\<rparr>"


text \<open>
  The values handed to an insert into \<open>waypoints\<close> (\<open>NewWaypoint\<close>). The source passes
  a coordinate as the decimal text of the number (\<open>wp.latitude.toString()\<close>); the model
  takes the rational that text denotes.
\<close>

record NewWaypoint =
  nw_route_id :: uuid
  nw_latitude :: rat
  nw_longitude :: rat
  nw_name :: "string option"
  nw_position :: int

datatype api_error =
    UNAUTHORIZED
  | BAD_REQUEST
  | Thrown string
  | DatabaseError string

text \<open>
  A value stored into a column \<open>decimal(precision, 8)\<close>: it is rounded to eight
  fractional digits, half away from zero, and rejected when the rounded value does not
  fit the precision.
\<close>

definition round_scale8 :: "rat \<Rightarrow> rat" where
  "round_scale8 x =
     (if 0 \<le> x then of_int \<lfloor>x * 10 ^ 8 + 1 / 2\<rfloor> / 10 ^ 8
      else - (of_int \<lfloor>- x * 10 ^ 8 + 1 / 2\<rfloor> / 10 ^ 8))"

definition decimal_column :: "nat \<Rightarrow> rat \<Rightarrow> rat option" where
  "decimal_column precision x =
     (let y = round_scale8 x in if \<bar>y\<bar> < 10 ^ (precision - 8) then Some y else None)"

text \<open>
  One row of an insert into \<open>waypoints\<close>, with the id it is given: the foreign key, the
  range of \<open>integer\<close> and the two decimal columns are checked.
\<close>

definition waypoint_row :: "database \<Rightarrow> NewWaypoint \<times> uuid \<Rightarrow> api_error + WaypointRow" where
  "waypoint_row db nwi =
     (case nwi of (nw, i) \<Rightarrow>
        if nw_route_id nw \<notin> r_id ` set (routes db)
        then Inl (DatabaseError ''violates foreign key constraint'')
        else if nw_position nw < - 2147483648 \<or> 2147483647 < nw_position nw
        then Inl (DatabaseError ''integer out of range'')
        else
          (case (decimal_column 10 (nw_latitude nw), decimal_column 11 (nw_longitude nw)) of
             (Some la, Some lo) \<Rightarrow>
               Inr \<lparr>w_id = i, route_id = nw_route_id nw, position = nw_position nw,
                    latitude = la, longitude = lo, w_name = nw_name nw\<rparr>
           | _ \<Rightarrow> Inl (DatabaseError ''numeric field overflow'')))"

text \<open>
  \<open>insert(waypoints).values(rows).returning()\<close>: one statement, so either every row
  is stored or none is.
\<close>

definition insert_waypoints ::
  "NewWaypoint list \<Rightarrow> database \<Rightarrow> (api_error + WaypointRow list) \<times> database" where
  "insert_waypoints nws db =
     (case map_throwing (waypoint_row db)
             (zip nws [next_uuid db ..< next_uuid db + length nws]) of
        Inl e \<Rightarrow> (Inl e, db)
      | Inr rows \<Rightarrow>
          (Inr rows,
           db\<lparr>waypoints := waypoints db @ rows, next_uuid := next_uuid db + length nws\<rparr>))"

text \<open>\<open>db.transaction\<close>: when the callback throws, its writes are rolled back.\<close>

definition transaction ::
  "(database \<Rightarrow> (api_error + 'a) \<times> database) \<Rightarrow> database \<Rightarrow> (api_error + 'a) \<times> database" where
  "transaction body db =
     (case body db of
        (Inl e, db') \<Rightarrow> (Inl e, db)
      | (Inr x, db') \<Rightarrow> (Inr x, db'))"

section \<open>Route persistence: the repositories (lib/db/repositories)\<close>

definition createRoute ::
  "string \<Rightarrow> string \<Rightarrow> string option \<Rightarrow> nat \<Rightarrow> database \<Rightarrow> Route \<times> database" where
  "createRoute userId name' description' now db =
     (let route = \<lparr>r_id = next_uuid db, user_id = userId, r_name = name',
                   description = description', created_at = now, updated_at = now\<rparr>
      in (route, db\<lparr>routes := routes db @ [route], next_uuid := Suc (next_uuid db)\<rparr>))"

text \<open>
  \<open>orderBy(position)\<close>: rows of one route have distinct positions; where they had not,
  the database would leave the order of the ties open and the model keeps stored order.
\<close>

definition getWaypointsByRouteId :: "uuid \<Rightarrow> database \<Rightarrow> WaypointRow list" where
  "getWaypointsByRouteId routeId db =
     sort_key position (filter (\<lambda>w. route_id w = routeId) (waypoints db))"

definition getRouteWithWaypoints ::
  "uuid \<Rightarrow> string \<Rightarrow> database \<Rightarrow> (Route \<times> WaypointRow list) option" where
  "getRouteWithWaypoints routeId userId db =
     (case filter (\<lambda>r. r_id r = routeId \<and> user_id r = userId) (routes db) of
        [] \<Rightarrow> None
      | route # _ \<Rightarrow>
          Some (route, sort_key position (filter (\<lambda>w. route_id w = routeId) (waypoints db))))"

definition updateRoute ::
  "uuid \<Rightarrow> string \<Rightarrow> string option \<Rightarrow> string option \<Rightarrow> nat \<Rightarrow> database
     \<Rightarrow> Route option \<times> database" where
  "updateRoute routeId userId name' description' now db =
     (let hit = (\<lambda>r. r_id r = routeId \<and> user_id r = userId);
          set_fields = (\<lambda>r. r\<lparr>r_name := (case name' of None \<Rightarrow> r_name r | Some n \<Rightarrow> n),
                               description := (case description' of
                                                 None \<Rightarrow> description r
                                               | Some d \<Rightarrow> Some d),
                               updated_at := now\<rparr>)
      in ((case filter hit (routes db) of [] \<Rightarrow> None | r # _ \<Rightarrow> Some (set_fields r)),
          db\<lparr>routes := map (\<lambda>r. if hit r then set_fields r else r) (routes db)\<rparr>))"

text \<open>Deleting a route deletes its waypoints (\<open>onDelete: 'cascade'\<close>).\<close>

definition deleteRoute :: "uuid \<Rightarrow> string \<Rightarrow> database \<Rightarrow> Route option \<times> database" where
  "deleteRoute routeId userId db =
     (let hit = (\<lambda>r. r_id r = routeId \<and> user_id r = userId)
      in case filter hit (routes db) of
           [] \<Rightarrow> (None, db)
         | r # _ \<Rightarrow>
             (Some r,
              db\<lparr>routes := filter (\<lambda>r. \<not> hit r) (routes db),
                 waypoints := filter (\<lambda>w. route_id w \<noteq> routeId) (waypoints db)\<rparr>))"

definition createWaypoint ::
  "NewWaypoint \<Rightarrow> database \<Rightarrow> (api_error + WaypointRow) \<times> database" where
  "createWaypoint nw db =
     (case insert_waypoints [nw] db of
        (Inl e, db') \<Rightarrow> (Inl e, db')
      | (Inr rows, db') \<Rightarrow> (Inr (hd rows), db'))"

definition createWaypoints ::
  "NewWaypoint list \<Rightarrow> database \<Rightarrow> (api_error + WaypointRow list) \<times> database" where
  "createWaypoints waypointsData db =
     (if length waypointsData = 0 then (Inr [], db) else insert_waypoints waypointsData db)"

definition deleteWaypoint :: "uuid \<Rightarrow> database \<Rightarrow> WaypointRow option \<times> database" where
  "deleteWaypoint waypointId db =
     ((case filter (\<lambda>w. w_id w = waypointId) (waypoints db) of
         [] \<Rightarrow> None
       | w # _ \<Rightarrow> Some w),
      db\<lparr>waypoints := filter (\<lambda>w. w_id w \<noteq> waypointId) (waypoints db)\<rparr>)"

definition replaceWaypoints ::
  "uuid \<Rightarrow> NewWaypoint list \<Rightarrow> database \<Rightarrow> (api_error + unit) \<times> database" where
  "replaceWaypoints routeId waypointsData db =
     transaction
       (\<lambda>tx.
          let tx1 = tx\<lparr>waypoints := filter (\<lambda>w. route_id w \<noteq> routeId) (waypoints tx)\<rparr>
          in if length waypointsData > 0
             then (case insert_waypoints waypointsData tx1 of
                     (Inl e, tx2) \<Rightarrow> (Inl e, tx2)
                   | (Inr rows, tx2) \<Rightarrow> (Inr (), tx2))
             else (Inr (), tx1))
       db"

section \<open>Route persistence: the procedures (lib/trpc/routes.ts on the repositories)\<close>

record Context =
  userId :: "string option"

record waypoint_input =
  wi_latitude :: rat
  wi_longitude :: rat
  wi_name :: "string option"

record create_input =
  ci_name :: string
  ci_description :: "string option"
  ci_waypoints :: "waypoint_input list"

record update_input =
  ui_id :: uuid
  ui_name :: "string option"
  ui_description :: "string option"
  ui_waypoints :: "waypoint_input list option"

record addWaypoint_input =
  ai_routeId :: uuid
  ai_latitude :: rat
  ai_longitude :: rat
  ai_name :: "string option"

datatype success = Success

text \<open>
  The middleware of \<open>protectedProcedure\<close> (lib/trpc/init.ts): a missing or empty user
  id is refused before the procedure runs.
\<close>

definition protectedProcedure ::
  "Context \<Rightarrow> (string \<Rightarrow> (api_error + 'a) \<times> database) \<Rightarrow> database
     \<Rightarrow> (api_error + 'a) \<times> database" where
  "protectedProcedure ctx run db =
     (case userId ctx of
        None \<Rightarrow> (Inl UNAUTHORIZED, db)
      | Some u \<Rightarrow> if u = [] then (Inl UNAUTHORIZED, db) else run u)"

text \<open>The rows built from the input array: the position is the array index.\<close>

definition waypointsData :: "uuid \<Rightarrow> waypoint_input list \<Rightarrow> NewWaypoint list" where
  "waypointsData routeId wps =
     map (\<lambda>(wp, index).
            \<lparr>nw_route_id = routeId, nw_latitude = wi_latitude wp,
             nw_longitude = wi_longitude wp, nw_name = wi_name wp,
             nw_position = int index\<rparr>)
         (zip wps [0 ..< length wps])"

definition routeRouter_create ::
  "Context \<Rightarrow> create_input \<Rightarrow> nat \<Rightarrow> database \<Rightarrow> (api_error + Route) \<times> database" where
  "routeRouter_create ctx input now db =
     protectedProcedure ctx
       (\<lambda>u.
          if length (ci_name input) < 1 then (Inl BAD_REQUEST, db)
          else
            (case createRoute u (ci_name input) (ci_description input) now db of
               (route, db1) \<Rightarrow>
                 if length (ci_waypoints input) > 0
                 then (case createWaypoints (waypointsData (r_id route) (ci_waypoints input)) db1 of
                         (Inl e, db2) \<Rightarrow> (Inl e, db2)
                       | (Inr rows, db2) \<Rightarrow> (Inr route, db2))
                 else (Inr route, db1)))
       db"

definition routeRouter_get ::
  "Context \<Rightarrow> uuid \<Rightarrow> database \<Rightarrow> api_error + Route \<times> WaypointRow list" where
  "routeRouter_get ctx routeId db =
     (case userId ctx of
        None \<Rightarrow> Inl (Thrown ''Unauthorized'')
      | Some u \<Rightarrow>
          if u = [] then Inl (Thrown ''Unauthorized'')
          else (case getRouteWithWaypoints routeId u db of
                  None \<Rightarrow> Inl (Thrown ''Route not found'')
                | Some route \<Rightarrow> Inr route))"

definition routeRouter_update ::
  "Context \<Rightarrow> update_input \<Rightarrow> nat \<Rightarrow> database \<Rightarrow> (api_error + success) \<times> database" where
  "routeRouter_update ctx input now db =
     protectedProcedure ctx
       (\<lambda>u.
          let meta =
                (if ui_name input \<noteq> None \<or> ui_description input \<noteq> None
                 then (case updateRoute (ui_id input) u (ui_name input) (ui_description input)
                              now db of
                         (None, db1) \<Rightarrow>
                           (Inl (Thrown ''Unauthorized: You can only update your own routes''),
                            db1)
                       | (Some updated, db1) \<Rightarrow> (Inr (), db1))
                 else (Inr (), db))
          in case meta of
               (Inl e, db1) \<Rightarrow> (Inl e, db1)
             | (Inr _, db1) \<Rightarrow>
                 (case ui_waypoints input of
                    None \<Rightarrow> (Inr Success, db1)
                  | Some wps \<Rightarrow>
                      (case replaceWaypoints (ui_id input) (waypointsData (ui_id input) wps) db1 of
                         (Inl e, db2) \<Rightarrow> (Inl e, db2)
                       | (Inr _, db2) \<Rightarrow> (Inr Success, db2))))
       db"

definition routeRouter_delete ::
  "Context \<Rightarrow> uuid \<Rightarrow> database \<Rightarrow> (api_error + success) \<times> database" where
  "routeRouter_delete ctx routeId db =
     protectedProcedure ctx
       (\<lambda>u. case deleteRoute routeId u db of
               (None, db1) \<Rightarrow>
                 (Inl (Thrown ''Unauthorized: You can only delete your own routes''), db1)
             | (Some deleted, db1) \<Rightarrow> (Inr Success, db1))
       db"

definition routeRouter_addWaypoint ::
  "Context \<Rightarrow> addWaypoint_input \<Rightarrow> database \<Rightarrow> (api_error + WaypointRow) \<times> database" where
  "routeRouter_addWaypoint ctx input db =
     protectedProcedure ctx
       (\<lambda>u. case getRouteWithWaypoints (ai_routeId input) u db of
               None \<Rightarrow>
                 (Inl (Thrown ''Unauthorized: You can only add waypoints to your own routes''),
                  db)
             | Some route \<Rightarrow>
                 let existingWaypoints = getWaypointsByRouteId (ai_routeId input) db;
                     nextPosition =
                       (if length existingWaypoints > 0
                        then Max (set (map position existingWaypoints)) + 1
                        else 0)
                 in createWaypoint
                      \<lparr>nw_route_id = ai_routeId input, nw_latitude = ai_latitude input,
                       nw_longitude = ai_longitude input, nw_name = ai_name input,
                       nw_position = nextPosition\<rparr>
                      db)
       db"

definition routeRouter_removeWaypoint ::
  "Context \<Rightarrow> uuid \<Rightarrow> database \<Rightarrow> (api_error + success) \<times> database" where
  "routeRouter_removeWaypoint ctx waypointId db =
     protectedProcedure ctx
       (\<lambda>u. case deleteWaypoint waypointId db of
               (None, db1) \<Rightarrow> (Inl (Thrown ''Waypoint not found''), db1)
             | (Some deleted, db1) \<Rightarrow> (Inr Success, db1))
       db"

section \<open>Route persistence: the procedure \<open>update\<close> on the Supabase client (lib/trpc/routes.ts)\<close>

text \<open>
  The \<open>update\<close> of the router in lib/trpc/routes.ts, a \<open>publicProcedure\<close>. Every
  \<open>await supabase.from(...)\<close> is one request, which the database runs as one statement
  of its own: the update of the route (\<open>name\<close> and \<open>description\<close> enter only when
  truthy, the row is selected by id alone), the delete of the waypoints of the route, and
  the insert of the new rows. The update and the delete violate no constraint, so that
  only the insert can return an error. The tables are those of the SQL schema, which has
  the same columns and constraints (\<open>DECIMAL(10, 8)\<close>, \<open>DECIMAL(11, 8)\<close>, the foreign
  key).
\<close>

definition routeRouter_update_supabase ::
  "update_input \<Rightarrow> nat \<Rightarrow> database \<Rightarrow> (api_error + success) \<times> database" where
  "routeRouter_update_supabase input now db =
     (let given = (\<lambda>s. case s of None \<Rightarrow> False | Some t \<Rightarrow> t \<noteq> []);
          db1 =
            (if given (ui_name input) \<or> given (ui_description input)
             then db\<lparr>routes :=
                       map (\<lambda>r. if r_id r = ui_id input
                                 then r\<lparr>r_name := (if given (ui_name input)
                                                     then the (ui_name input) else r_name r),
                                        description := (if given (ui_description input)
                                                          then ui_description input
                                                          else description r),
                                        updated_at := now\<rparr>
                                 else r)
                           (routes db)\<rparr>
             else db)
      in case ui_waypoints input of
           None \<Rightarrow> (Inr Success, db1)
         | Some wps \<Rightarrow>
             let db2 = db1\<lparr>waypoints :=
                             filter (\<lambda>w. route_id w \<noteq> ui_id input) (waypoints db1)\<rparr>
             in (case insert_waypoints (waypointsData (ui_id input) wps) db2 of
                   (Inl insertError, db3) \<Rightarrow> (Inl insertError, db3)
                 | (Inr rows, db3) \<Rightarrow> (Inr Success, db3)))"

section \<open>Route persistence: the constraints\<close>

text \<open>
  The state the constraints of the schema maintain: ids come from the supply, route ids are
  distinct (primary key) and every waypoint belongs to a stored route (foreign key).
\<close>

definition wf_database :: "database \<Rightarrow> bool" where
  "wf_database db =
     (distinct (map r_id (routes db))
      \<and> list_all (\<lambda>r. r_id r < next_uuid db) (routes db)
      \<and> list_all (\<lambda>w. w_id w < next_uuid db) (waypoints db)
      \<and> list_all (\<lambda>w. route_id w \<in> r_id ` set (routes db)) (waypoints db))"

section \<open>Sample inputs\<close>

text \<open>A runtime, two waypoints and provider answers on which the results are evaluated.\<close>

definition sample_runtime :: "ranked runtime" where
  "sample_runtime =
     \<lparr>toNumber = (\<lambda>v. NaN), toString = (\<lambda>v. ''[object Object]''),
      array_sort = (\<lambda>c xs. xs)\<rparr>"

definition sample_waypoints :: "Waypoint list" where
  "sample_waypoints =
     [\<lparr>wp_id = ''waypoint-1'', lng = Fin True 122, lat = Fin False 37, name = Some ''A''\<rparr>,
      \<lparr>wp_id = ''waypoint-2'', lng = Fin True 74, lat = Fin False 41, name = None\<rparr>]"

definition longer_waypoints :: "Waypoint list" where
  "longer_waypoints =
     sample_waypoints
       @ [\<lparr>wp_id = ''waypoint-3'', lng = Fin True 87, lat = Fin False 41, name = None\<rparr>]"

definition route_data_a :: RouteData where
  "route_data_a =
     \<lparr>distance = JNum (Fin False 4100000), duration = JNum (Fin False 150000),
      geometry = JStr ''A''\<rparr>"

definition route_data_b :: RouteData where
  "route_data_b =
     \<lparr>distance = JNum (Fin False 4600000), duration = JNum (Fin False 170000),
      geometry = JStr ''B''\<rparr>"

definition sample_route_body :: jsval where
  "sample_route_body =
     JObj [(''code'', JStr ''Ok''),
           (''routes'',
            JArr [JObj [(''distance'', JNum (Fin False 4100000)),
                        (''duration'', JNum (Fin False 150000)),
                        (''geometry'', JObj [(''type'', JStr ''LineString'')])],
                  JObj [(''distance'', JNum (Fin False 4200000))]])]"

definition sample_suggest_body :: jsval where
  "sample_suggest_body =
     JObj [(''suggestions'',
            JArr [JObj [(''name'', JStr ''Hotel ABC''), (''mapbox_id'', JStr ''poi-1''),
                        (''feature_type'', JStr ''poi'')],
                  JObj [(''name'', JStr ''Salt Lake City''), (''mapbox_id'', JStr ''place-1''),
                        (''feature_type'', JStr ''place'')]])]"

definition sample_create_input :: create_input where
  "sample_create_input =
     \<lparr>ci_name = ''Coast to coast'', ci_description = None,
      ci_waypoints =
        [\<lparr>wi_latitude = 37774929 / 1000000, wi_longitude = - 122419416 / 1000000,
          wi_name = Some ''San Francisco''\<rparr>,
         \<lparr>wi_latitude = 40712776 / 1000000, wi_longitude = - 74005974 / 1000000,
          wi_name = None\<rparr>]\<rparr>"

definition sample_route :: Route where
  "sample_route =
     \<lparr>r_id = 0, user_id = ''user_x'', r_name = ''Coast to coast'', description = None,
      created_at = 1000, updated_at = 1000\<rparr>"

text \<open>The database after \<open>user_x\<close> has saved the sample route into the empty one.\<close>

definition sample_database :: database where
  "sample_database =
     \<lparr>routes = [sample_route],
      waypoints =
        [\<lparr>w_id = 1, route_id = 0, position = 0, latitude = 37774929 / 1000000,
          longitude = - 122419416 / 1000000, w_name = Some ''San Francisco''\<rparr>,
         \<lparr>w_id = 2, route_id = 0, position = 1, latitude = 40712776 / 1000000,
          longitude = - 74005974 / 1000000, w_name = None\<rparr>],
      next_uuid = 3\<rparr>"

text \<open>The same rows, the waypoints held in the opposite order.\<close>

definition sample_database_reordered :: database where
  "sample_database_reordered =
     sample_database\<lparr>waypoints := rev (waypoints sample_database)\<rparr>"

definition sample_waypoint_inputs :: "waypoint_input list" where
  "sample_waypoint_inputs =
     [\<lparr>wi_latitude = 34052235 / 1000000, wi_longitude = - 118243683 / 1000000,
       wi_name = Some ''Los Angeles''\<rparr>,
      \<lparr>wi_latitude = 123456789 / 10000000000, wi_longitude = 0, wi_name = None\<rparr>,
      \<lparr>wi_latitude = 41878113 / 1000000, wi_longitude = - 87629799 / 1000000,
       wi_name = Some ''Chicago''\<rparr>]"

definition sample_update_input :: update_input where
  "sample_update_input =
     \<lparr>ui_id = 0, ui_name = None, ui_description = None,
      ui_waypoints = Some sample_waypoint_inputs\<rparr>"

definition sample_database_updated :: database where
  "sample_database_updated =
     \<lparr>routes = [sample_route],
      waypoints =
        [\<lparr>w_id = 3, route_id = 0, position = 0, latitude = 34052235 / 1000000,
          longitude = - 118243683 / 1000000, w_name = Some ''Los Angeles''\<rparr>,
         \<lparr>w_id = 4, route_id = 0, position = 1, latitude = 1234568 / 100000000,
          longitude = 0, w_name = None\<rparr>,
         \<lparr>w_id = 5, route_id = 0, position = 2, latitude = 41878113 / 1000000,
          longitude = - 87629799 / 1000000, w_name = Some ''Chicago''\<rparr>],
      next_uuid = 6\<rparr>"

section \<open>Results about numbers\<close>

lemma powi_nat: "0 \<le> k \<Longrightarrow> (2::rat) powi k = 2 ^ nat k"
  by (simp add: power_int_def)

lemma powi_less_exp: "(2::rat) powi m < 2 powi n \<Longrightarrow> m < n"
  using power_int_increasing [of n m "2::rat"] by (cases "m < n") auto

text \<open>The exponent function is the floor of the binary logarithm.\<close>

lemma floor_log2_bounds:
  assumes "0 < x"
  shows "2 powi (floor_log2 x) \<le> x" and "x < 2 powi (floor_log2 x + 1)"
proof -
  obtain a b where q: "quotient_of x = (a, b)" by (cases "quotient_of x")
  then have b: "0 < b" and x: "x = of_int a / of_int b"
    using quotient_of_denom_pos quotient_of_div by auto
  with assms have a: "0 < a"
    by (simp add: zero_less_divide_iff)
  define la lb where "la = bitlen a" and "lb = bitlen b"
  have la: "1 \<le> la" and lb: "1 \<le> lb"
    using a b by (auto simp: la_def lb_def bitlen_alt_def)
  have int_bounds: "(2::rat) powi (bitlen n - 1) \<le> of_int n \<and> of_int n < (2::rat) powi (bitlen n)"
    if "0 < n" for n :: int
  proof -
    from that have len: "1 \<le> bitlen n" by (auto simp: bitlen_alt_def)
    from bitlen_bounds [OF that]
    have "(of_int (2 ^ nat (bitlen n - 1)) :: rat) \<le> of_int n"
      and "(of_int n :: rat) < of_int (2 ^ nat (bitlen n))"
      by (simp_all only: of_int_le_iff of_int_less_iff)
    then have "(2::rat) ^ nat (bitlen n - 1) \<le> of_int n" "of_int n < (2::rat) ^ nat (bitlen n)"
      by simp_all
    with len show ?thesis
      by (simp add: powi_nat)
  qed
  from int_bounds [OF a] have a_lo: "(2::rat) powi (la - 1) \<le> of_int a"
    and a_hi: "of_int a < (2::rat) powi la"
    by (simp_all add: la_def)
  from int_bounds [OF b] have b_lo: "(2::rat) powi (lb - 1) \<le> of_int b"
    and b_hi: "of_int b < (2::rat) powi lb"
    by (simp_all add: lb_def)
  have bpos: "(0::rat) < of_int b" using b by simp
  have hi: "x < 2 powi (la - lb + 1)"
  proof -
    have "of_int a < (2::rat) powi (la - lb + 1) * 2 powi (lb - 1)"
      using a_hi by (simp flip: power_int_add)
    also have "\<dots> \<le> 2 powi (la - lb + 1) * of_int b"
      using b_lo by (simp add: mult_left_mono)
    finally show ?thesis
      using bpos by (simp add: x pos_divide_less_eq)
  qed
  have lo: "2 powi (la - lb - 1) < x"
  proof -
    have "(2::rat) powi (la - lb - 1) * of_int b < 2 powi (la - lb - 1) * 2 powi lb"
      using b_hi by (simp add: mult_strict_left_mono)
    also have "\<dots> = 2 powi (la - 1)"
      by (simp flip: power_int_add)
    also have "\<dots> \<le> of_int a" by (rule a_lo)
    finally show ?thesis
      using bpos by (simp add: x pos_less_divide_eq)
  qed
  have fl: "floor_log2 x = (if 2 powi (la - lb) \<le> x then la - lb else la - lb - 1)"
    by (simp add: floor_log2_def q la_def lb_def Let_def)
  show "2 powi (floor_log2 x) \<le> x"
    using lo by (simp add: fl)
  show "x < 2 powi (floor_log2 x + 1)"
    using hi by (simp add: fl not_le)
qed

lemma floor_log2_unique:
  assumes "0 < x" and "2 powi k \<le> x" and "x < 2 powi (k + 1)"
  shows "floor_log2 x = k"
proof -
  from floor_log2_bounds [OF assms(1)] assms(2,3)
  have "(2::rat) powi (floor_log2 x) < 2 powi (k + 1)" "(2::rat) powi k < 2 powi (floor_log2 x + 1)"
    by auto
  then have "floor_log2 x < k + 1" "k < floor_log2 x + 1"
    by (auto dest: powi_less_exp)
  then show ?thesis by simp
qed

lemma round_half_even_of_int [simp]: "round_half_even (of_int n) = n"
  by (simp add: round_half_even_def)

lemma round_half_even_bounds:
  "\<lfloor>x\<rfloor> \<le> round_half_even x" "round_half_even x \<le> \<lfloor>x\<rfloor> + 1"
  by (simp_all add: round_half_even_def Let_def)

lemma round_half_even_le: "x < of_int n \<Longrightarrow> round_half_even x \<le> n"
proof -
  assume "x < of_int n"
  then have "\<lfloor>x\<rfloor> < n" by (simp add: floor_less_iff)
  with round_half_even_bounds(2) [of x] show ?thesis by linarith
qed

lemma round_half_even_ge: "of_int n \<le> x \<Longrightarrow> n \<le> round_half_even x"
proof -
  assume "of_int n \<le> x"
  then have "n \<le> \<lfloor>x\<rfloor>" by (simp add: le_floor_iff)
  with round_half_even_bounds(1) [of x] show ?thesis by linarith
qed


lemma powi_add: "(2::rat) powi (a + b) = 2 powi a * 2 powi b"
  by (rule power_int_add) simp

lemma powi_pos [simp]: "(0::rat) < 2 powi k"
  by simp

text \<open>A value with 53 significant bits and an exponent in range rounds to itself.\<close>

lemma round_binary64_normal:
  assumes n: "2 powi fraction_bits \<le> (of_int n :: rat)"
      "(of_int n :: rat) < 2 powi (fraction_bits + 1)"
    and e: "min_exponent \<le> e"
    and m: "m = of_int n * 2 powi (e - fraction_bits)" and fin: "m < overflow_threshold"
  shows "round_binary64 t m = Fin t m"
proof -
  define u :: rat where "u = 2 powi (e - fraction_bits)"
  have u: "0 < u" by (simp add: u_def)
  have "(2::rat) powi (fraction_bits + (e - fraction_bits)) = 2 powi fraction_bits * u"
    unfolding u_def by (rule powi_add)
  then have e_split: "(2::rat) powi e = 2 powi fraction_bits * u" by simp
  have "(2::rat) powi ((fraction_bits + 1) + (e - fraction_bits)) = 2 powi (fraction_bits + 1) * u"
    unfolding u_def by (rule powi_add)
  then have e1_split: "(2::rat) powi (e + 1) = 2 powi (fraction_bits + 1) * u"
    by (simp add: add.commute)
  have mu: "m = of_int n * u" by (simp add: m u_def)
  have lo: "2 powi e \<le> m"
    unfolding e_split mu using n(1) u by (simp add: mult_right_mono)
  have hi: "m < 2 powi (e + 1)"
    unfolding e1_split mu using n(2) u by (simp add: mult_strict_right_mono)
  have pos: "0 < m"
    using lo powi_pos [of e] by (rule less_le_trans [rotated])
  have fl: "floor_log2 m = e"
    by (rule floor_log2_unique [OF pos lo hi])
  have "m / u = of_int n"
    using u by (simp add: mu)
  then have "of_int (round_half_even (m / u)) * u = m"
    by (simp add: mu)
  with pos fin e show ?thesis
    by (simp add: round_binary64_def fl Let_def max_def not_le u_def)
qed


lemma floor_add_half: "\<lfloor>of_int z + 1 / 2 :: rat\<rfloor> = z"
  by (rule floor_unique) simp_all

lemma round_half_even_nonneg: "0 \<le> x \<Longrightarrow> 0 \<le> round_half_even x"
  using round_half_even_ge [of 0 x] by simp

text \<open>
  A finite result of rounding that is at least \<open>10\<^sup>2\<^sup>1\<close> is an integer, so rounding it to
  hundredths and back to binary64 gives the same value.
\<close>

lemma round_binary64_large:
  assumes r: "round_binary64 s q = Fin s' m" and big: "10 ^ 21 \<le> m"
  shows "round_binary64 t (of_int \<lfloor>m * 100 + 1 / 2\<rfloor> / 100) = Fin t m"
proof -
  have c52: "(of_int (2 ^ 52) :: rat) = 2 powi fraction_bits"
    and c53: "(of_int (2 ^ 53) :: rat) = 2 powi (fraction_bits + 1)"
    and small: "(2::rat) powi (fraction_bits + 1) < 10 ^ 21"
    and fb: "min_exponent \<le> fraction_bits" "0 \<le> fraction_bits"
    by (simp_all add: fraction_bits_def min_exponent_def)
  from big have mpos: "0 < m"
    by (rule less_le_trans [rotated]) simp
  have qpos: "0 < q"
  proof (rule ccontr)
    assume "\<not> 0 < q"
    with r have "m = 0" by (simp add: round_binary64_def)
    with mpos show False by simp
  qed
  define e where "e = max (floor_log2 q) min_exponent"
  define u :: rat where "u = 2 powi (e - fraction_bits)"
  define n where "n = round_half_even (q / u)"
  have u: "0 < u" by (simp add: u_def)
  from r qpos have m: "m = of_int n * u" and fin: "m < overflow_threshold"
    by (auto simp: round_binary64_def Let_def e_def u_def n_def not_le split: if_splits)
  have "(2::rat) powi ((fraction_bits + 1) + (e - fraction_bits)) = 2 powi (fraction_bits + 1) * u"
    unfolding u_def by (rule powi_add)
  then have e1_split: "(2::rat) powi (e + 1) = 2 powi (fraction_bits + 1) * u"
    by (simp add: add.commute)
  have "(2::rat) powi (fraction_bits + (e - fraction_bits)) = 2 powi fraction_bits * u"
    unfolding u_def by (rule powi_add)
  then have e_split: "(2::rat) powi e = 2 powi fraction_bits * u" by simp
  have "q < 2 powi (floor_log2 q + 1)"
    by (rule floor_log2_bounds(2) [OF qpos])
  also have "\<dots> \<le> 2 powi (e + 1)"
    by (rule power_int_increasing) (simp_all add: e_def)
  finally have "q < 2 powi (fraction_bits + 1) * u"
    by (simp only: e1_split)
  then have "q / u < of_int (2 ^ 53)"
    using u by (simp only: c53 pos_divide_less_eq)
  then have n_hi: "n \<le> 2 ^ 53"
    unfolding n_def by (rule round_half_even_le)
  have n0: "0 \<le> n"
    unfolding n_def using qpos u by (intro round_half_even_nonneg) simp
  have u1: "1 < u"
  proof (rule ccontr)
    assume "\<not> 1 < u"
    then have "u \<le> 1" by simp
    with n0 have "of_int n * u \<le> of_int n * 1"
      by (intro mult_left_mono) simp_all
    also have "\<dots> \<le> of_int (2 ^ 53)"
      using n_hi by (simp only: mult_1_right of_int_le_iff)
    also have "\<dots> < 10 ^ 21"
      by (simp only: c53 small)
    finally show False using big m by simp
  qed
  have "(2::rat) powi 0 < 2 powi (e - fraction_bits)"
    using u1 by (simp add: u_def)
  then have ebig: "0 < e - fraction_bits"
    by (rule powi_less_exp)
  with fb have e_min: "min_exponent \<le> e" "min_exponent < e" by simp_all
  then have "floor_log2 q = e"
    by (simp add: e_def max_def split: if_splits)
  with floor_log2_bounds(1) [OF qpos] have "2 powi e \<le> q"
    by simp
  then have "2 powi fraction_bits * u \<le> q"
    by (simp only: e_split)
  then have "of_int (2 ^ 52) \<le> q / u"
    using u by (simp only: c52 pos_le_divide_eq)
  then have n_lo: "2 ^ 52 \<le> n"
    unfolding n_def by (rule round_half_even_ge)
  from ebig have "u = 2 ^ nat (e - fraction_bits)"
    by (simp add: u_def powi_nat)
  then have "m = of_int (n * 2 ^ nat (e - fraction_bits))"
    by (simp add: m)
  then obtain M :: int where M: "m = of_int M" ..
  have "m * 100 + 1 / 2 = of_int (M * 100) + 1 / 2"
    by (simp add: M)
  then have "\<lfloor>m * 100 + 1 / 2\<rfloor> = M * 100"
    by (simp only: floor_add_half)
  then have same: "of_int \<lfloor>m * 100 + 1 / 2\<rfloor> / 100 = m"
    by (simp add: M)
  have "round_binary64 t m = Fin t m"
  proof (cases "n < 2 ^ 53")
    case True
    from n_lo have "(of_int (2 ^ 52) :: rat) \<le> of_int n"
      by (simp only: of_int_le_iff)
    moreover from True have "(of_int n :: rat) < of_int (2 ^ 53)"
      by (simp only: of_int_less_iff)
    ultimately show ?thesis
      using e_min(1) m fin unfolding c52 c53 u_def
      by (intro round_binary64_normal [of n e]) simp_all
  next
    case False
    with n_hi have "n = 2 ^ 53" by simp
    then have "m = 2 powi (fraction_bits + 1) * u"
      by (simp only: m c53)
    also have "\<dots> = 2 powi (e + 1)"
      by (simp only: e1_split)
    also have "\<dots> = 2 powi (fraction_bits + ((e + 1) - fraction_bits))"
      by simp
    also have "\<dots> = 2 powi fraction_bits * 2 powi ((e + 1) - fraction_bits)"
      by (rule powi_add)
    finally have m': "m = of_int (2 ^ 52) * 2 powi ((e + 1) - fraction_bits)"
      by (simp only: c52)
    have lt: "(2::rat) powi fraction_bits < 2 powi (fraction_bits + 1)"
      by (rule power_int_strict_increasing) simp_all
    have a1: "2 powi fraction_bits \<le> (of_int (2 ^ 52) :: rat)"
      by (simp only: c52 order_refl)
    have a2: "(of_int (2 ^ 52) :: rat) < 2 powi (fraction_bits + 1)"
      using lt by (simp only: c52)
    have a3: "min_exponent \<le> e + 1"
      using e_min(1) by simp
    show ?thesis
      by (rule round_binary64_normal [OF a1 a2 a3 m' fin])
  qed
  with same show ?thesis by simp
qed


lemma round_binary64_sign:
  "round_binary64 s q = Inf s \<or> (\<exists>m. round_binary64 s q = Fin s m)"
  by (simp add: round_binary64_def Let_def)

section \<open>Results about the cost estimator\<close>

lemma toFixed2_of_rounded:
  "Number (toFixed2 (round_binary64 False q)) = rounded_to_2_decimals (round_binary64 False q)"
proof -
  from round_binary64_sign [of False q] show ?thesis
  proof
    assume "round_binary64 False q = Inf False"
    then show ?thesis
      by (simp add: toFixed2_def Number_def rounded_to_2_decimals_def)
  next
    assume "\<exists>m. round_binary64 False q = Fin False m"
    then obtain m where m: "round_binary64 False q = Fin False m" ..
    show ?thesis
    proof (cases "10 ^ 21 \<le> m")
      case True
      from round_binary64_large [OF m True, of False] True show ?thesis
        by (simp add: m toFixed2_def Number_def rounded_to_2_decimals_def)
    next
      case False
      then show ?thesis
        by (simp add: m toFixed2_def Number_def rounded_to_2_decimals_def)
    qed
  qed
qed

lemma exact_values:
  "round_binary64 False 2 = Fin False 2"
  "round_binary64 False 4 = Fin False 4"
  "round_binary64 False 7 = Fin False 7"
  "round_binary64 False 14 = Fin False 14"
  "round_binary64 False 28 = Fin False 28"
proof -
  have bounds: "2 powi fraction_bits \<le> (of_int (2 ^ 52) :: rat)"
    "(of_int (2 ^ 52) :: rat) < 2 powi (fraction_bits + 1)"
    "2 powi fraction_bits \<le> (of_int (7 * 2 ^ 50) :: rat)"
    "(of_int (7 * 2 ^ 50) :: rat) < 2 powi (fraction_bits + 1)"
    by (simp_all add: fraction_bits_def)
  have exps: "min_exponent \<le> 1" "min_exponent \<le> 2" "min_exponent \<le> 3" "min_exponent \<le> 4"
    by (simp_all add: min_exponent_def)
  have vals: "(2::rat) = of_int (2 ^ 52) * 2 powi (1 - fraction_bits)"
    "(4::rat) = of_int (2 ^ 52) * 2 powi (2 - fraction_bits)"
    "(7::rat) = of_int (7 * 2 ^ 50) * 2 powi (2 - fraction_bits)"
    "(14::rat) = of_int (7 * 2 ^ 50) * 2 powi (3 - fraction_bits)"
    "(28::rat) = of_int (7 * 2 ^ 50) * 2 powi (4 - fraction_bits)"
    by (simp_all add: fraction_bits_def)
  have fin: "(2::rat) < overflow_threshold" "(4::rat) < overflow_threshold"
    "(7::rat) < overflow_threshold" "(14::rat) < overflow_threshold"
    "(28::rat) < overflow_threshold"
    by (simp_all add: overflow_threshold_def)
  show "round_binary64 False 2 = Fin False 2"
    by (rule round_binary64_normal [OF bounds(1,2) exps(1) vals(1) fin(1)])
  show "round_binary64 False 4 = Fin False 4"
    by (rule round_binary64_normal [OF bounds(1,2) exps(2) vals(2) fin(2)])
  show "round_binary64 False 7 = Fin False 7"
    by (rule round_binary64_normal [OF bounds(3,4) exps(2) vals(3) fin(3)])
  show "round_binary64 False 14 = Fin False 14"
    by (rule round_binary64_normal [OF bounds(3,4) exps(3) vals(4) fin(4)])
  show "round_binary64 False 28 = Fin False 28"
    by (rule round_binary64_normal [OF bounds(3,4) exps(4) vals(5) fin(5)])
qed

lemma floor_rat_numeral:
  "\<lfloor>numeral a / numeral b :: rat\<rfloor> = numeral a div numeral b"
  "\<lfloor>- (numeral a / numeral b) :: rat\<rfloor> = - numeral a div numeral b"
  "\<lfloor>1 / numeral b :: rat\<rfloor> = 1 div numeral b"
  using floor_divide_of_int_eq [where ?'a = rat, of "numeral a" "numeral b"]
    floor_divide_of_int_eq [where ?'a = rat, of "- numeral a" "numeral b"]
    floor_divide_of_int_eq [where ?'a = rat, of 1 "numeral b"]
  by simp_all

lemmas cost_defs =
  calculateFuelCost_def calculateGallonsNeeded_def toFixed2_def Number_def Let_def
  floor_rat_numeral exact_values

text \<open>
  Claim C3. For every finite distance \<open>d \<ge> 0\<close> and all finite settings with
  \<open>mpg > 0\<close> and \<open>pricePerGallon > 0\<close>, \<open>calculateGallonsNeeded\<close> returns \<open>d / mpg\<close>
  rounded to 2 decimal places and \<open>calculateFuelCost\<close> returns
  \<open>(d / mpg) * pricePerGallon\<close> rounded to 2 decimal places, \<open>/\<close> and \<open>*\<close> being the
  operators of the language. In particular the cost of 100 miles at 25 mpg and 3.5 per
  gallon is 14, at 7 per gallon it is 28, at 50 mpg it is 7, and 100 miles at 25 mpg
  need 4 gallons.
\<close>

theorem cost_rounded_to_2_decimals:
  assumes "0 \<le> d" and "0 < m" and "0 < p"
  shows "calculateGallonsNeeded (Fin False d) (Fin False m)
       = Inr (rounded_to_2_decimals (js_div (Fin False d) (Fin False m)))
     \<and> calculateFuelCost (Fin False d) \<lparr>mpg = Fin False m, pricePerGallon = Fin False p\<rparr>
       = Inr (rounded_to_2_decimals
                (js_mul (js_div (Fin False d) (Fin False m)) (Fin False p)))
     \<and> calculateFuelCost (Fin False 100)
         \<lparr>mpg = Fin False 25, pricePerGallon = Fin False (7 / 2)\<rparr> = Inr (Fin False 14)
     \<and> calculateFuelCost (Fin False 100)
         \<lparr>mpg = Fin False 25, pricePerGallon = Fin False 7\<rparr> = Inr (Fin False 28)
     \<and> calculateFuelCost (Fin False 100)
         \<lparr>mpg = Fin False 50, pricePerGallon = Fin False (7 / 2)\<rparr> = Inr (Fin False 7)
     \<and> calculateGallonsNeeded (Fin False 100) (Fin False 25) = Inr (Fin False 4)"
proof -
  from assms(2) have div: "js_div (Fin False d) (Fin False m) = round_binary64 False (d / m)"
    by simp
  have gallons: "calculateGallonsNeeded (Fin False d) (Fin False m)
       = Inr (rounded_to_2_decimals (js_div (Fin False d) (Fin False m)))"
    by (simp only: calculateGallonsNeeded_def div toFixed2_of_rounded)
  have "Number (toFixed2 (js_mul (round_binary64 False (d / m)) (Fin False p)))
      = rounded_to_2_decimals (js_mul (round_binary64 False (d / m)) (Fin False p))"
  proof -
    from round_binary64_sign [of False "d / m"] show ?thesis
    proof
      assume "round_binary64 False (d / m) = Inf False"
      with assms(3) show ?thesis
        by (simp add: toFixed2_def Number_def rounded_to_2_decimals_def)
    next
      assume "\<exists>x. round_binary64 False (d / m) = Fin False x"
      then obtain x where "round_binary64 False (d / m) = Fin False x" ..
      then show ?thesis
        by (simp add: toFixed2_of_rounded)
    qed
  qed
  then have cost: "calculateFuelCost (Fin False d)
         \<lparr>mpg = Fin False m, pricePerGallon = Fin False p\<rparr>
       = Inr (rounded_to_2_decimals
                (js_mul (js_div (Fin False d) (Fin False m)) (Fin False p)))"
    using assms(2) by (simp add: calculateFuelCost_def Let_def)
  have examples: "calculateFuelCost (Fin False 100)
         \<lparr>mpg = Fin False 25, pricePerGallon = Fin False (7 / 2)\<rparr> = Inr (Fin False 14)"
    "calculateFuelCost (Fin False 100)
         \<lparr>mpg = Fin False 25, pricePerGallon = Fin False 7\<rparr> = Inr (Fin False 28)"
    "calculateFuelCost (Fin False 100)
         \<lparr>mpg = Fin False 50, pricePerGallon = Fin False (7 / 2)\<rparr> = Inr (Fin False 7)"
    "calculateGallonsNeeded (Fin False 100) (Fin False 25) = Inr (Fin False 4)"
    by (simp_all add: cost_defs)
  from gallons cost examples show ?thesis
    by (intro conjI)
qed

theorem cost_rounded_to_2_decimals_witness:
  "(0::rat) \<le> 100 \<and> (0::rat) < 25 \<and> (0::rat) < 7 / 2
   \<and> calculateGallonsNeeded (Fin False 100) (Fin False 25)
       = Inr (rounded_to_2_decimals (js_div (Fin False 100) (Fin False 25)))
   \<and> rounded_to_2_decimals (js_div (Fin False 100) (Fin False 25)) = Fin False 4
   \<and> calculateFuelCost (Fin False 100)
         \<lparr>mpg = Fin False 25, pricePerGallon = Fin False (7 / 2)\<rparr>
       = Inr (rounded_to_2_decimals
                (js_mul (js_div (Fin False 100) (Fin False 25)) (Fin False (7 / 2))))
   \<and> rounded_to_2_decimals (js_mul (js_div (Fin False 100) (Fin False 25)) (Fin False (7 / 2)))
       = Fin False 14"
proof -
  have h: "(0::rat) \<le> 100" "(0::rat) < 25" "(0::rat) < 7 / 2"
    by simp_all
  have vals: "rounded_to_2_decimals (js_div (Fin False 100) (Fin False 25)) = Fin False 4"
    "rounded_to_2_decimals (js_mul (js_div (Fin False 100) (Fin False 25)) (Fin False (7 / 2)))
       = Fin False 14"
    by (simp_all add: rounded_to_2_decimals_def exact_values floor_rat_numeral)
  from cost_rounded_to_2_decimals [OF h] h vals show ?thesis
    by (intro conjI) (elim conjE, assumption)+
qed

text \<open>
  Claim C2, as stated: with \<open>mpg = 0\<close> the two functions signal an error instead of
  returning a value such as \<open>Infinity\<close>. They return \<open>Infinity\<close>.
\<close>

theorem mpg_zero_returns_infinity:
  "calculateFuelCost (Fin False 100) \<lparr>mpg = Fin False 0, pricePerGallon = Fin False (7 / 2)\<rparr>
     = Inr (Inf False)
   \<and> calculateGallonsNeeded (Fin False 100) (Fin False 0) = Inr (Inf False)"
  by (simp add: calculateFuelCost_def calculateGallonsNeeded_def toFixed2_def Number_def)

text \<open>
  Claim C2, amended: with \<open>mpg = 0\<close> (either zero), whatever the distance and the price,
  the two functions signal no error and return a value that is not a finite number.
  \<open>calculateGallonsNeeded\<close> returns \<open>NaN\<close> when the distance is 0 or \<open>NaN\<close>, and
  otherwise \<open>Infinity\<close> or \<open>-Infinity\<close>, negative when the distance and the zero differ
  in sign. \<open>calculateFuelCost\<close> returns \<open>NaN\<close> when that quotient is \<open>NaN\<close> or the
  price is 0 or \<open>NaN\<close>, and otherwise \<open>Infinity\<close> or \<open>-Infinity\<close>, negative when the
  quotient and the price differ in sign.
\<close>

theorem mpg_zero_returns_non_finite:
  "(let quotient = (case d of
                      NaN \<Rightarrow> NaN
                    | Inf sd \<Rightarrow> Inf (sd \<noteq> s)
                    | Fin sd m \<Rightarrow> if m = 0 then NaN else Inf (sd \<noteq> s));
        cost = (case quotient of
                  Inf sq \<Rightarrow>
                    (case p of
                       NaN \<Rightarrow> NaN
                     | Inf sp \<Rightarrow> Inf (sq \<noteq> sp)
                     | Fin sp n \<Rightarrow> if n = 0 then NaN else Inf (sq \<noteq> sp))
                | _ \<Rightarrow> NaN)
    in calculateGallonsNeeded d (Fin s 0) = Inr quotient
     \<and> calculateFuelCost d \<lparr>mpg = Fin s 0, pricePerGallon = p\<rparr> = Inr cost
     \<and> \<not> is_finite quotient
     \<and> \<not> is_finite cost)"
  by (cases d; cases p)
    (simp_all add: calculateFuelCost_def calculateGallonsNeeded_def toFixed2_def Number_def
      is_finite_def)

section \<open>Results about the waypoint store\<close>

lemma addWaypoint_appends:
  "addWaypoint now x y prev = prev @ [last (addWaypoint now x y prev)]"
  by (simp add: addWaypoint_def)

text \<open>
  Claim C9. Every add is claimed to give the new waypoint an id distinct from the ids
  already in the sequence, also for rapid consecutive adds. Two adds that read the same
  millisecond from the clock produce the same id: after them the sequence holds two
  waypoints with equal ids.
\<close>

theorem addWaypoint_same_millisecond_same_id:
  "map wp_id
     (addWaypoint 1700000000000 (Fin True 74) (Fin False 41)
        (addWaypoint 1700000000000 (Fin True 122) (Fin False 37) []))
   = [''waypoint-1700000000000'', ''waypoint-1700000000000'']"
  by (simp add: addWaypoint_def new_waypoint_id_def)

section \<open>Results about the route resolver\<close>

lemma fetchRoute_try_cases:
  "fetchRoute_try rt Rejects = Inl NetworkError"
  "fetchRoute_try rt (Response ok st None) = Inl SyntaxError"
  "map_of kvs ''routes'' = None \<Longrightarrow> fetchRoute_try rt (Response ok st (Some (JObj kvs))) = Inr None"
  "map_of kvs ''routes'' = Some (JArr []) \<Longrightarrow> fetchRoute_try rt (Response ok st (Some (JObj kvs))) = Inr None"
  "map_of kvs ''routes'' = Some (JArr (JObj fs # rest)) \<Longrightarrow>
     fetchRoute_try rt (Response ok st (Some (JObj kvs))) =
       Inr (Some \<lparr>distance = own_prop fs ''distance'', duration = own_prop fs ''duration'',
                  geometry = own_prop fs ''geometry''\<rparr>)"
  by (simp_all add: fetchRoute_try_def bindE_def own_prop_def gt_zero_def num_gt_zero_def)

text \<open>
  Claim C4. \<open>fetchRoute\<close> never throws, whatever the waypoints and whatever the network
  answers. With fewer than two waypoints it returns \<open>null\<close> and issues no request. With
  two or more it issues exactly one request; it returns \<open>null\<close> when the request fails
  (the fetch rejects, the body is no JSON, the provider answers with an error body that
  has no routes) and when the list of routes is empty; otherwise it returns the distance,
  duration and geometry of the first route.
\<close>

theorem fetchRoute_never_throws:
  "(\<exists>r. fst (fetchRoute rt token net ws) = Inr r)
   \<and> (length ws < 2 \<longrightarrow> fetchRoute rt token net ws = (Inr None, []))
   \<and> (2 \<le> length ws \<longrightarrow>
        (let u = DirectionsUrl (map (\<lambda>w. (lng w, lat w)) ws) token;
             res = fst (fetchRoute rt token net ws)
         in filter (\<lambda>e. e \<noteq> ConsoleError) (snd (fetchRoute rt token net ws)) = [Request u]
          \<and> (net u = Rejects \<longrightarrow> res = Inr None)
          \<and> (net u = Response ok st None \<longrightarrow> res = Inr None)
          \<and> (net u = Response ok st (Some (JObj kvs)) \<longrightarrow>
                (map_of kvs ''routes'' = None \<longrightarrow> res = Inr None)
              \<and> (map_of kvs ''routes'' = Some (JArr []) \<longrightarrow> res = Inr None)
              \<and> (map_of kvs ''routes'' = Some (JArr (JObj fs # rest)) \<longrightarrow>
                    res = Inr (Some \<lparr>distance = own_prop fs ''distance'',
                                     duration = own_prop fs ''duration'',
                                     geometry = own_prop fs ''geometry''\<rparr>)))))"
proof (intro conjI impI)
  show "\<exists>r. fst (fetchRoute rt token net ws) = Inr r"
    by (simp add: fetchRoute_def Let_def split: sum.split)
next
  assume "length ws < 2"
  then show "fetchRoute rt token net ws = (Inr None, [])"
    by (simp add: fetchRoute_def)
next
  assume len: "2 \<le> length ws"
  then have unfold: "fetchRoute rt token net ws =
      (case fetchRoute_try rt (net (DirectionsUrl (map (\<lambda>w. (lng w, lat w)) ws) token)) of
         Inr r \<Rightarrow> (Inr r, [Request (DirectionsUrl (map (\<lambda>w. (lng w, lat w)) ws) token)])
       | Inl e \<Rightarrow> (Inr None, [Request (DirectionsUrl (map (\<lambda>w. (lng w, lat w)) ws) token), ConsoleError]))"
    by (simp add: fetchRoute_def Let_def)
  show "let u = DirectionsUrl (map (\<lambda>w. (lng w, lat w)) ws) token;
             res = fst (fetchRoute rt token net ws)
         in filter (\<lambda>e. e \<noteq> ConsoleError) (snd (fetchRoute rt token net ws)) = [Request u]
          \<and> (net u = Rejects \<longrightarrow> res = Inr None)
          \<and> (net u = Response ok st None \<longrightarrow> res = Inr None)
          \<and> (net u = Response ok st (Some (JObj kvs)) \<longrightarrow>
                (map_of kvs ''routes'' = None \<longrightarrow> res = Inr None)
              \<and> (map_of kvs ''routes'' = Some (JArr []) \<longrightarrow> res = Inr None)
              \<and> (map_of kvs ''routes'' = Some (JArr (JObj fs # rest)) \<longrightarrow>
                    res = Inr (Some \<lparr>distance = own_prop fs ''distance'',
                                     duration = own_prop fs ''duration'',
                                     geometry = own_prop fs ''geometry''\<rparr>)))"
    unfolding Let_def unfold
    by (auto simp: fetchRoute_try_cases split: sum.split)
qed

theorem fetchRoute_never_throws_witness:
  "fetchRoute sample_runtime None (\<lambda>u. Rejects) [hd sample_waypoints] = (Inr None, [])
   \<and> fst (fetchRoute sample_runtime None (\<lambda>u. Rejects) sample_waypoints) = Inr None
   \<and> fst (fetchRoute sample_runtime None (\<lambda>u. Response False ''Bad Gateway'' None)
             sample_waypoints) = Inr None
   \<and> fst (fetchRoute sample_runtime None
             (\<lambda>u. Response False ''Unauthorized''
                    (Some (JObj [(''message'', JStr ''Not Authorized'')])))
             sample_waypoints) = Inr None
   \<and> fst (fetchRoute sample_runtime None
             (\<lambda>u. Response True ''OK''
                    (Some (JObj [(''code'', JStr ''NoRoute''), (''routes'', JArr [])])))
             sample_waypoints) = Inr None
   \<and> fst (fetchRoute sample_runtime None (\<lambda>u. Response True ''OK'' (Some sample_route_body))
             sample_waypoints)
       = Inr (Some \<lparr>distance = JNum (Fin False 4100000), duration = JNum (Fin False 150000),
                    geometry = JObj [(''type'', JStr ''LineString'')]\<rparr>)"
  using
    fetchRoute_never_throws [of sample_runtime None "\<lambda>u. Rejects" "[hd sample_waypoints]"]
    fetchRoute_never_throws [of sample_runtime None "\<lambda>u. Rejects" sample_waypoints]
    fetchRoute_never_throws [of sample_runtime None "\<lambda>u. Response False ''Bad Gateway'' None"
      sample_waypoints False "''Bad Gateway''"]
    fetchRoute_never_throws [of sample_runtime None
      "\<lambda>u. Response False ''Unauthorized'' (Some (JObj [(''message'', JStr ''Not Authorized'')]))"
      sample_waypoints False "''Unauthorized''" "[(''message'', JStr ''Not Authorized'')]"]
    fetchRoute_never_throws [of sample_runtime None
      "\<lambda>u. Response True ''OK'' (Some (JObj [(''code'', JStr ''NoRoute''), (''routes'', JArr [])]))"
      sample_waypoints True "''OK''" "[(''code'', JStr ''NoRoute''), (''routes'', JArr [])]"]
    fetchRoute_never_throws [of sample_runtime None
      "\<lambda>u. Response True ''OK'' (Some sample_route_body)" sample_waypoints True "''OK''"
      "[(''code'', JStr ''Ok''),
        (''routes'',
         JArr [JObj [(''distance'', JNum (Fin False 4100000)),
                     (''duration'', JNum (Fin False 150000)),
                     (''geometry'', JObj [(''type'', JStr ''LineString'')])],
               JObj [(''distance'', JNum (Fin False 4200000))]])]"
      "[(''distance'', JNum (Fin False 4100000)),
        (''duration'', JNum (Fin False 150000)),
        (''geometry'', JObj [(''type'', JStr ''LineString'')])]"
      "[JObj [(''distance'', JNum (Fin False 4200000))]]"]
  by (simp add: sample_waypoints_def sample_route_body_def own_prop_def Let_def)

section \<open>Results about the autocomplete suggestions\<close>

lemma map_throwing_null:
  "JNull \<in> set xs \<Longrightarrow> \<exists>e. map_throwing raw_suggestion xs = Inl e"
proof (induction xs)
  case Nil
  then show ?case by simp
next
  case (Cons x xs)
  show ?case
  proof (cases "raw_suggestion x")
    case (Inl e)
    then show ?thesis by (simp add: bindE_def)
  next
    case (Inr y)
    then have "x \<noteq> JNull" by (auto simp: raw_suggestion_def bindE_def)
    with Cons.prems have "JNull \<in> set xs" by simp
    with Cons.IH obtain e where "map_throwing raw_suggestion xs = Inl e" by blast
    with Inr show ?thesis by (simp add: bindE_def)
  qed
qed

lemma getSuggestions_try_cases:
  "getSuggestions_try rt Rejects = Inl NetworkError"
  "getSuggestions_try rt (Response False st json) = Inl (Error (''Search suggestions failed: '' @ st))"
  "getSuggestions_try rt (Response True st None) = Inl SyntaxError"
  "getSuggestions_try rt (Response True st (Some JNull)) = Inl TypeError"
  by (simp_all add: getSuggestions_try_def bindE_def)

lemma getSuggestions_try_partial:
  assumes "map_of kvs ''suggestions'' = Some (JArr xs)" and "JNull \<in> set xs"
  shows "\<exists>e. getSuggestions_try rt (Response True st (Some (JObj kvs))) = Inl e"
proof -
  from assms(2) obtain e where "map_throwing raw_suggestion xs = Inl e"
    using map_throwing_null by blast
  with assms(1) show ?thesis
    by (simp add: getSuggestions_try_def bindE_def own_prop_def suggestions_array_def)
qed

text \<open>
  Claim C10. \<open>getSuggestions\<close> never throws and never returns part of a result: when
  the access token is missing or empty, when the fetch rejects, when the response is not
  ok, when the body is no JSON or is \<open>null\<close>, and when reading any one suggestion throws
  (a \<open>null\<close> entry among well-formed ones), the result is the empty list.
\<close>

theorem getSuggestions_never_throws:
  "(\<exists>r. fst (getSuggestions rt token net query sessionToken options) = Inr r)
   \<and> (token = None \<or> token = Some [] \<longrightarrow>
        getSuggestions rt token net query sessionToken options = (Inr [], [ConsoleError]))
   \<and> (token = Some accessToken \<and> accessToken \<noteq> [] \<longrightarrow>
        (let u = suggest_url accessToken query sessionToken options;
             res = fst (getSuggestions rt token net query sessionToken options)
         in (net u = Rejects \<longrightarrow> res = Inr [])
          \<and> (net u = Response False st json \<longrightarrow> res = Inr [])
          \<and> (net u = Response True st None \<longrightarrow> res = Inr [])
          \<and> (net u = Response True st (Some JNull) \<longrightarrow> res = Inr [])
          \<and> (net u = Response True st (Some (JObj kvs))
               \<and> map_of kvs ''suggestions'' = Some (JArr xs) \<and> JNull \<in> set xs \<longrightarrow> res = Inr [])))"
proof (intro conjI impI)
  show "\<exists>r. fst (getSuggestions rt token net query sessionToken options) = Inr r"
    by (simp add: getSuggestions_def Let_def split: sum.split option.split)
next
  assume "token = None \<or> token = Some []"
  then show "getSuggestions rt token net query sessionToken options = (Inr [], [ConsoleError])"
    by (auto simp: getSuggestions_def)
next
  assume tok: "token = Some accessToken \<and> accessToken \<noteq> []"
  then have unfold: "fst (getSuggestions rt token net query sessionToken options) =
      (case getSuggestions_try rt (net (suggest_url accessToken query sessionToken options)) of
         Inr r \<Rightarrow> Inr r | Inl e \<Rightarrow> Inr [])"
    by (simp add: getSuggestions_def Let_def split: sum.split)
  show "let u = suggest_url accessToken query sessionToken options;
             res = fst (getSuggestions rt token net query sessionToken options)
         in (net u = Rejects \<longrightarrow> res = Inr [])
          \<and> (net u = Response False st json \<longrightarrow> res = Inr [])
          \<and> (net u = Response True st None \<longrightarrow> res = Inr [])
          \<and> (net u = Response True st (Some JNull) \<longrightarrow> res = Inr [])
          \<and> (net u = Response True st (Some (JObj kvs))
               \<and> map_of kvs ''suggestions'' = Some (JArr xs) \<and> JNull \<in> set xs \<longrightarrow> res = Inr [])"
    unfolding Let_def unfold
    using getSuggestions_try_partial [of kvs xs rt st]
    by (auto simp: getSuggestions_try_cases)
qed

theorem getSuggestions_never_throws_witness:
  "getSuggestions sample_runtime None (\<lambda>u. Rejects) ''salt'' ''s1'' None = (Inr [], [ConsoleError])
   \<and> fst (getSuggestions sample_runtime (Some ''pk.token'') (\<lambda>u. Rejects) ''salt'' ''s1'' None) = Inr []
   \<and> fst (getSuggestions sample_runtime (Some ''pk.token'')
             (\<lambda>u. Response False ''Too Many Requests'' (Some sample_suggest_body))
             ''salt'' ''s1'' None) = Inr []
   \<and> fst (getSuggestions sample_runtime (Some ''pk.token'') (\<lambda>u. Response True ''OK'' None)
             ''salt'' ''s1'' None) = Inr []
   \<and> fst (getSuggestions sample_runtime (Some ''pk.token'')
             (\<lambda>u. Response True ''OK''
                    (Some (JObj [(''suggestions'',
                                  JArr [JObj [(''name'', JStr ''Salt Lake City'')], JNull])])))
             ''salt'' ''s1'' None) = Inr []"
  using
    getSuggestions_never_throws [of sample_runtime None "\<lambda>u. Rejects" "''salt''" "''s1''" None]
    getSuggestions_never_throws [of sample_runtime "Some ''pk.token''" "\<lambda>u. Rejects"
      "''salt''" "''s1''" None "''pk.token''"]
    getSuggestions_never_throws [of sample_runtime "Some ''pk.token''"
      "\<lambda>u. Response False ''Too Many Requests'' (Some sample_suggest_body)"
      "''salt''" "''s1''" None "''pk.token''" "''Too Many Requests''" "Some sample_suggest_body"]
    getSuggestions_never_throws [of sample_runtime "Some ''pk.token''"
      "\<lambda>u. Response True ''OK'' None" "''salt''" "''s1''" None "''pk.token''" "''OK''"]
    getSuggestions_never_throws [of sample_runtime "Some ''pk.token''"
      "\<lambda>u. Response True ''OK''
             (Some (JObj [(''suggestions'',
                           JArr [JObj [(''name'', JStr ''Salt Lake City'')], JNull])]))"
      "''salt''" "''s1''" None "''pk.token''" "''OK''" None
      "[(''suggestions'', JArr [JObj [(''name'', JStr ''Salt Lake City'')], JNull])]"
      "[JObj [(''name'', JStr ''Salt Lake City'')], JNull]"]
  by (simp add: Let_def)

text \<open>On a well-formed answer the suggestions come back with places first.\<close>

lemma getSuggestions_sample:
  "map sg_name (projr (fst (getSuggestions sample_runtime (Some ''pk.token'')
      (\<lambda>u. Response True ''OK'' (Some sample_suggest_body)) ''salt'' ''s1'' None)))
   = [JStr ''Salt Lake City'', JStr ''Hotel ABC'']"
  by (simp add: getSuggestions_def getSuggestions_try_def suggest_url_def bindE_def own_prop_def
      suggestions_array_def raw_suggestion_def sample_suggest_body_def sample_runtime_def
      sort_ranked_def is_number_def priority_of_def typePriority_def object_prototype_keys_def
      rank_key_def MAX_SAFE_INTEGER_def Let_def)

section \<open>Results about the route hook\<close>

lemma hook_inv_initial: "hook_inv initial_hook_state"
  by (simp add: hook_inv_def initial_hook_state_def)

lemma run_id_cancel:
  "map (\<lambda>p. run_id (if P p then p\<lparr>cancelled := True\<rparr> else p)) ps = map run_id ps"
  by (induction ps) auto

lemma hook_inv_cleanup: "hook_inv s \<Longrightarrow> hook_inv (run_cleanup s)"
  by (auto simp: hook_inv_def run_cleanup_def comp_def run_id_cancel split: option.splits)

lemma run_cleanup_all_cancelled:
  "hook_inv s \<Longrightarrow> \<forall>p \<in> set (in_flight (run_cleanup s)). cancelled p"
  by (auto simp: hook_inv_def run_cleanup_def split: option.splits)

lemma run_cleanup_fields [simp]:
  "route_cell (run_cleanup s) = route_cell s" "loading_cell (run_cleanup s) = loading_cell s"
  "runs (run_cleanup s) = runs s"
  by (auto simp: run_cleanup_def split: option.splits)

lemma hook_inv_effect:
  "hook_inv s \<Longrightarrow> \<forall>p \<in> set (in_flight s). cancelled p \<Longrightarrow> hook_inv (use_effect ws s)"
  by (fastforce simp: hook_inv_def use_effect_def)

lemma find_run_id:
  "find (\<lambda>p. run_id p = i) ps = Some p \<Longrightarrow> p \<in> set ps \<and> run_id p = i"
  by (induction ps) (auto split: if_splits)

lemma hook_inv_step: "hook_inv s \<Longrightarrow> hook_inv (hook_step e s)"
proof (cases e)
  case (Render ws)
  assume "hook_inv s"
  then show ?thesis
    using hook_inv_effect [OF hook_inv_cleanup run_cleanup_all_cancelled] Render by simp
next
  case (Settle i r)
  assume "hook_inv s"
  then show ?thesis
    by (auto simp: Settle hook_inv_def resume_def distinct_map_filter split: option.splits)
qed

lemma hook_inv_run: "hook_inv s \<Longrightarrow> hook_inv (run_events es s)"
  by (induction es arbitrary: s) (auto intro: hook_inv_step)

lemma run_append: "run_events (es @ es') s = run_events es' (run_events es s)"
  by (induction es arbitrary: s) auto


lemma stale_settle_ignored:
  assumes "hook_inv s" and "cleanup s \<noteq> Some j"
  shows "route_cell (hook_step (Settle j r) s) = route_cell s"
    and "loading_cell (hook_step (Settle j r) s) = loading_cell s"
proof -
  have "cancelled p" if "find (\<lambda>p. run_id p = j) (in_flight s) = Some p" for p
  proof -
    from find_run_id [OF that] have "p \<in> set (in_flight s)" "run_id p = j" by auto
    with assms show ?thesis by (auto simp: hook_inv_def)
  qed
  then show "route_cell (hook_step (Settle j r) s) = route_cell s"
    and "loading_cell (hook_step (Settle j r) s) = loading_cell s"
    by (auto simp: resume_def split: option.splits)
qed

lemma settles_on_cancelled:
  assumes "\<forall>p \<in> set (in_flight s). cancelled p" and "list_all is_settle es"
  shows "route_cell (run_events es s) = route_cell s
       \<and> loading_cell (run_events es s) = loading_cell s"
  using assms
proof (induction es arbitrary: s)
  case Nil
  then show ?case by simp
next
  case (Cons e es)
  from Cons.prems(2) obtain j r where e: "e = Settle j r"
    by (cases e) (auto simp: is_settle_def)
  have "hook_step e s = s
      \<or> hook_step e s = s\<lparr>in_flight := filter (\<lambda>p. run_id p \<noteq> j) (in_flight s)\<rparr>"
    using Cons.prems(1)
    by (auto simp: e resume_def split: option.splits dest: find_run_id)
  then have same: "route_cell (hook_step e s) = route_cell s"
      "loading_cell (hook_step e s) = loading_cell s"
    and canc: "\<forall>p \<in> set (in_flight (hook_step e s)). cancelled p"
    using Cons.prems(1) by auto
  from Cons.IH [OF canc] Cons.prems(2) same show ?case
    by simp
qed

lemma find_filter_other:
  "j \<noteq> i \<Longrightarrow> find (\<lambda>p. run_id p = i) (filter (\<lambda>p. run_id p \<noteq> j) ps)
     = find (\<lambda>p. run_id p = i) ps"
  by (induction ps) auto

lemma settles_of_others:
  assumes "hook_inv s" and "cleanup s = Some i"
    and "list_all is_settle es" and "list_all (\<lambda>e. settled e \<noteq> Some i) es"
  shows "route_cell (run_events es s) = route_cell s
       \<and> loading_cell (run_events es s) = loading_cell s
       \<and> hook_inv (run_events es s)
       \<and> cleanup (run_events es s) = Some i
       \<and> find (\<lambda>p. run_id p = i) (in_flight (run_events es s))
           = find (\<lambda>p. run_id p = i) (in_flight s)"
  using assms
proof (induction es arbitrary: s)
  case Nil
  then show ?case by simp
next
  case (Cons e es)
  from Cons.prems(3) obtain j r where e: "e = Settle j r"
    by (cases e) (auto simp: is_settle_def)
  with Cons.prems(4) have ji: "j \<noteq> i" by simp
  with Cons.prems(2) have stale: "cleanup s \<noteq> Some j" by simp
  note same = stale_settle_ignored [OF Cons.prems(1) stale, of r]
  have inv': "hook_inv (hook_step e s)"
    by (rule hook_inv_step [OF Cons.prems(1)])
  have cl': "cleanup (hook_step e s) = Some i"
    using Cons.prems(2) by (auto simp: e resume_def split: option.splits)
  have find': "find (\<lambda>p. run_id p = i) (in_flight (hook_step e s))
      = find (\<lambda>p. run_id p = i) (in_flight s)"
    using ji by (auto simp: e resume_def find_filter_other split: option.splits)
  from Cons.IH [OF inv' cl'] Cons.prems(3,4) same find' show ?case
    by (simp add: e)
qed

lemma find_append_new:
  "\<forall>p \<in> set ps. run_id p \<noteq> run_id q \<Longrightarrow> find (\<lambda>p. run_id p = run_id q) (ps @ [q]) = Some q"
  by (induction ps) auto

lemma render_starts_request:
  assumes "hook_inv s" and "2 \<le> length ws"
  shows "route_cell (hook_step (Render ws) s) = route_cell s"
    and "loading_cell (hook_step (Render ws) s)"
    and "cleanup (hook_step (Render ws) s) = Some (runs s)"
    and "find (\<lambda>p. run_id p = runs s) (in_flight (hook_step (Render ws) s))
          = Some \<lparr>run_id = runs s, captured = ws, cancelled = False\<rparr>"
proof -
  from assms(2) have st: "use_effect ws (run_cleanup s) =
      (run_cleanup s)\<lparr>loading_cell := True,
         in_flight := in_flight (run_cleanup s)
                       @ [\<lparr>run_id = runs s, captured = ws, cancelled = False\<rparr>],
         cleanup := Some (runs s), runs := Suc (runs s)\<rparr>"
    by (simp add: use_effect_def)
  from hook_inv_cleanup [OF assms(1)]
  have "\<forall>p \<in> set (in_flight (run_cleanup s)).
      run_id p \<noteq> run_id \<lparr>run_id = runs s, captured = ws, cancelled = False\<rparr>"
    by (auto simp: hook_inv_def)
  from find_append_new [OF this]
  show "find (\<lambda>p. run_id p = runs s) (in_flight (hook_step (Render ws) s))
          = Some \<lparr>run_id = runs s, captured = ws, cancelled = False\<rparr>"
    by (simp add: st)
  show "route_cell (hook_step (Render ws) s) = route_cell s"
    and "loading_cell (hook_step (Render ws) s)"
    and "cleanup (hook_step (Render ws) s) = Some (runs s)"
    by (simp_all add: st)
qed

lemma short_sequence_clears:
  assumes "hook_inv s" and "length ws < 2" and "list_all is_settle es"
  shows "route_cell (run_events (Render ws # es) s) = None"
proof -
  from assms(2) have st: "use_effect ws (run_cleanup s) = (run_cleanup s)\<lparr>route_cell := None\<rparr>"
    by (simp add: use_effect_def)
  from run_cleanup_all_cancelled [OF assms(1)]
  have "\<forall>p \<in> set (in_flight (hook_step (Render ws) s)). cancelled p"
    by (simp add: st)
  from settles_on_cancelled [OF this assms(3)] show ?thesis
    by (simp add: st)
qed

lemma latest_pending:
  assumes "hook_inv s" and "2 \<le> length ws" and "list_all is_settle es"
    and "list_all (\<lambda>e. settled e \<noteq> Some (runs s)) es"
  shows "route_cell (run_events (Render ws # es) s) = route_cell s"
    and "loading_cell (run_events (Render ws # es) s)"
  using settles_of_others [OF hook_inv_step [OF assms(1)]
      render_starts_request(3) [OF assms(1,2)] assms(3,4)]
    render_starts_request(1,2) [OF assms(1,2)]
  by simp_all

lemma latest_settled:
  assumes "hook_inv s" and "2 \<le> length ws"
    and "list_all is_settle (a @ Settle (runs s) r # b)"
    and "list_all (\<lambda>e. settled e \<noteq> Some (runs s)) a"
  shows "route_cell (run_events (Render ws # a @ Settle (runs s) r # b) s) = r"
    and "\<not> loading_cell (run_events (Render ws # a @ Settle (runs s) r # b) s)"
proof -
  define s1 where "s1 = hook_step (Render ws) s"
  define s2 where "s2 = run_events a s1"
  define s3 where "s3 = hook_step (Settle (runs s) r) s2"
  from assms(3) have sa: "list_all is_settle a" and sb: "list_all is_settle b"
    by simp_all
  have inv1: "hook_inv s1" unfolding s1_def by (rule hook_inv_step [OF assms(1)])
  have cl1: "cleanup s1 = Some (runs s)"
    unfolding s1_def by (rule render_starts_request(3) [OF assms(1,2)])
  from settles_of_others [OF inv1 cl1 sa assms(4)] render_starts_request(4) [OF assms(1,2)]
  have inv2: "hook_inv s2" and cl2: "cleanup s2 = Some (runs s)"
    and f2: "find (\<lambda>p. run_id p = runs s) (in_flight s2)
        = Some \<lparr>run_id = runs s, captured = ws, cancelled = False\<rparr>"
    unfolding s2_def s1_def by simp_all
  from f2 have s3: "s3 = s2\<lparr>in_flight := filter (\<lambda>p. run_id p \<noteq> runs s) (in_flight s2),
      route_cell := r, loading_cell := False\<rparr>"
    by (simp add: s3_def resume_def)
  from inv2 cl2 have "\<forall>p \<in> set (in_flight s3). cancelled p"
    by (auto simp: s3 hook_inv_def)
  from settles_on_cancelled [OF this sb]
  have "route_cell (run_events b s3) = r" "\<not> loading_cell (run_events b s3)"
    by (simp_all add: s3)
  moreover have "run_events (Render ws # a @ Settle (runs s) r # b) s = run_events b s3"
    by (simp add: run_append s1_def s2_def s3_def)
  ultimately show "route_cell (run_events (Render ws # a @ Settle (runs s) r # b) s) = r"
    and "\<not> loading_cell (run_events (Render ws # a @ Settle (runs s) r # b) s)"
    by simp_all
qed

text \<open>
  Claim C1. After any sequence of events \<open>es\<close>: a promise that settles for an effect
  run other than the one whose cleanup is held (its waypoints were superseded by a later
  render) changes neither \<open>route\<close> nor \<open>loading\<close>. And when \<open>ws\<close> is the latest waypoint
  sequence (after its render only promises settle, in any order and for any runs): with
  fewer than two waypoints \<open>route\<close> is \<open>null\<close>; with two or more, as long as the
  promise of the latest run has not settled, \<open>route\<close> is what it was before the render
  and \<open>loading\<close> is true, whatever superseded promises settle meanwhile; and once the
  promise of the latest run has settled with \<open>r\<close>, \<open>route\<close> is \<open>r\<close> and \<open>loading\<close> is
  false, whatever superseded promises settle before or after.
\<close>

theorem useRoute_discards_superseded_results:
  "(cleanup (run_events es initial_hook_state) \<noteq> Some j \<longrightarrow>
      route_cell (hook_step (Settle j r') (run_events es initial_hook_state))
        = route_cell (run_events es initial_hook_state)
    \<and> loading_cell (hook_step (Settle j r') (run_events es initial_hook_state))
        = loading_cell (run_events es initial_hook_state))
   \<and> (list_all is_settle es2 \<longrightarrow>
        (length ws < 2 \<longrightarrow>
           route_cell (run_events (es @ Render ws # es2) initial_hook_state) = None)
      \<and> (2 \<le> length ws
           \<and> list_all (\<lambda>e. settled e \<noteq> Some (runs (run_events es initial_hook_state))) es2 \<longrightarrow>
           route_cell (run_events (es @ Render ws # es2) initial_hook_state)
             = route_cell (run_events es initial_hook_state)
         \<and> loading_cell (run_events (es @ Render ws # es2) initial_hook_state))
      \<and> (2 \<le> length ws
           \<and> es2 = a @ Settle (runs (run_events es initial_hook_state)) r # b
           \<and> list_all (\<lambda>e. settled e \<noteq> Some (runs (run_events es initial_hook_state))) a \<longrightarrow>
           route_cell (run_events (es @ Render ws # es2) initial_hook_state) = r
         \<and> \<not> loading_cell (run_events (es @ Render ws # es2) initial_hook_state)))"
proof -
  define s where "s = run_events es initial_hook_state"
  have inv: "hook_inv s"
    unfolding s_def by (rule hook_inv_run [OF hook_inv_initial])
  have split: "run_events (es @ Render ws # es2) initial_hook_state
      = run_events (Render ws # es2) s"
    by (simp add: run_append s_def)
  show ?thesis
    unfolding split s_def [symmetric]
    using stale_settle_ignored [OF inv, of j r'] short_sequence_clears [OF inv, of ws es2]
      latest_pending [OF inv, of ws es2] latest_settled [OF inv, of ws a r b]
    by blast
qed


theorem useRoute_discards_superseded_results_witness:
  "cleanup (run_events [Render sample_waypoints, Render longer_waypoints] initial_hook_state)
     = Some 1
   \<and> route_cell (hook_step (Settle 0 (Some route_data_a))
         (run_events [Render sample_waypoints, Render longer_waypoints] initial_hook_state))
       = route_cell (run_events [Render sample_waypoints, Render longer_waypoints]
                       initial_hook_state)
   \<and> route_cell (run_events [Render sample_waypoints, Render longer_waypoints,
                           Settle 0 (Some route_data_a)] initial_hook_state) = None
   \<and> loading_cell (run_events [Render sample_waypoints, Render longer_waypoints,
                               Settle 0 (Some route_data_a)] initial_hook_state)
   \<and> route_cell (run_events [Render sample_waypoints, Render longer_waypoints,
                             Settle 0 (Some route_data_a), Settle 1 (Some route_data_b),
                             Settle 0 (Some route_data_a)] initial_hook_state)
       = Some route_data_b
   \<and> \<not> loading_cell (run_events [Render sample_waypoints, Render longer_waypoints,
                             Settle 0 (Some route_data_a), Settle 1 (Some route_data_b),
                             Settle 0 (Some route_data_a)] initial_hook_state)
   \<and> route_cell (run_events [Render sample_waypoints, Settle 0 (Some route_data_a),
                             Render longer_waypoints, Render [],
                             Settle 1 (Some route_data_b)] initial_hook_state) = None"
proof -
  have ev: "runs (run_events [Render sample_waypoints] initial_hook_state) = 1"
    "cleanup (run_events [Render sample_waypoints, Render longer_waypoints] initial_hook_state)
       = Some 1"
    "length longer_waypoints = 3" "length sample_waypoints = 2"
    by (simp_all add: initial_hook_state_def run_cleanup_def use_effect_def
        sample_waypoints_def longer_waypoints_def)
  have settles: "list_all is_settle [Settle 0 (Some route_data_a)]"
    "list_all is_settle [Settle 0 (Some route_data_a), Settle 1 (Some route_data_b),
                         Settle 0 (Some route_data_a)]"
    "list_all is_settle [Settle 1 (Some route_data_b)]"
    by (simp_all add: is_settle_def)
  have before: "route_cell (run_events [Render sample_waypoints] initial_hook_state) = None"
    by (simp add: initial_hook_state_def run_cleanup_def use_effect_def sample_waypoints_def)
  note pending = useRoute_discards_superseded_results
    [of "[Render sample_waypoints]" 0 None "[Settle 0 (Some route_data_a)]" longer_waypoints
      "[]" None "[]"]
  note final = useRoute_discards_superseded_results
    [of "[Render sample_waypoints]" 0 None
      "[Settle 0 (Some route_data_a), Settle 1 (Some route_data_b), Settle 0 (Some route_data_a)]"
      longer_waypoints "[Settle 0 (Some route_data_a)]" "Some route_data_b"
      "[Settle 0 (Some route_data_a)]"]
  note discard = useRoute_discards_superseded_results
    [of "[Render sample_waypoints, Render longer_waypoints]" 0 "Some route_data_a"
      "[]" "[]" "[]" None "[]"]
  from discard ev
  have 0: "route_cell (hook_step (Settle 0 (Some route_data_a))
         (run_events [Render sample_waypoints, Render longer_waypoints] initial_hook_state))
       = route_cell (run_events [Render sample_waypoints, Render longer_waypoints]
                       initial_hook_state)"
    by (simp del: run_events.simps hook_step.simps)
  note short = useRoute_discards_superseded_results
    [of "[Render sample_waypoints, Settle 0 (Some route_data_a), Render longer_waypoints]"
      0 None "[Settle 1 (Some route_data_b)]" "[]" "[]" None "[]"]
  from pending settles ev before
  have 1: "route_cell (run_events [Render sample_waypoints, Render longer_waypoints,
                           Settle 0 (Some route_data_a)] initial_hook_state) = None
    \<and> loading_cell (run_events [Render sample_waypoints, Render longer_waypoints,
                               Settle 0 (Some route_data_a)] initial_hook_state)"
    by (simp del: run_events.simps hook_step.simps)
  from final settles ev
  have 2: "route_cell (run_events [Render sample_waypoints, Render longer_waypoints,
                             Settle 0 (Some route_data_a), Settle 1 (Some route_data_b),
                             Settle 0 (Some route_data_a)] initial_hook_state)
       = Some route_data_b
    \<and> \<not> loading_cell (run_events [Render sample_waypoints, Render longer_waypoints,
                             Settle 0 (Some route_data_a), Settle 1 (Some route_data_b),
                             Settle 0 (Some route_data_a)] initial_hook_state)"
    by (simp del: run_events.simps hook_step.simps)
  from short settles
  have 3: "route_cell (run_events [Render sample_waypoints, Settle 0 (Some route_data_a),
                             Render longer_waypoints, Render [],
                             Settle 1 (Some route_data_b)] initial_hook_state) = None"
    by (simp del: run_events.simps hook_step.simps)
  from ev(2) 0 1 2 3 show ?thesis
    by (simp del: run_events.simps hook_step.simps)
qed

section \<open>Results about route persistence\<close>

lemma map_throwing_Inr:
  "map_throwing f xs = Inr ys \<Longrightarrow> list_all2 (\<lambda>x y. f x = Inr y) xs ys"
proof (induction xs arbitrary: ys)
  case Nil
  then show ?case by simp
next
  case (Cons x xs)
  then show ?case
    by (auto simp: bindE_def split: sum.splits)
qed

lemma waypoint_row_Inr:
  assumes "waypoint_row db (nw, i) = Inr row"
  shows "w_id row = i" "route_id row = nw_route_id nw" "position row = nw_position nw"
    "latitude row = round_scale8 (nw_latitude nw)"
    "longitude row = round_scale8 (nw_longitude nw)"
    "w_name row = nw_name nw"
    "nw_route_id nw \<in> r_id ` set (routes db)"
  using assms
  by (auto simp: waypoint_row_def decimal_column_def Let_def split: if_splits option.splits)

lemma rows_of_list_all2:
  "list_all2 (\<lambda>x y. waypoint_row db x = Inr y) (zip nws ids) rows \<Longrightarrow>
   length ids = length nws \<Longrightarrow>
     map w_id rows = ids
   \<and> map route_id rows = map nw_route_id nws
   \<and> map position rows = map nw_position nws
   \<and> map latitude rows = map round_scale8 (map nw_latitude nws)
   \<and> map longitude rows = map round_scale8 (map nw_longitude nws)
   \<and> map w_name rows = map nw_name nws
   \<and> list_all (\<lambda>nw. nw_route_id nw \<in> r_id ` set (routes db)) nws"
proof (induction nws arbitrary: ids rows)
  case Nil
  then show ?case by simp
next
  case (Cons nw nws)
  from Cons.prems obtain i ids' row rows' where
    ids: "ids = i # ids'" and rows: "rows = row # rows'"
    by (cases ids; cases rows) auto
  with Cons.prems have hd: "waypoint_row db (nw, i) = Inr row"
    and tl: "list_all2 (\<lambda>x y. waypoint_row db x = Inr y) (zip nws ids') rows'"
    and len: "length ids' = length nws"
    by auto
  from Cons.IH [OF tl len] waypoint_row_Inr [OF hd] show ?case
    by (simp add: ids rows)
qed

lemma insert_waypoints_Inl:
  "insert_waypoints nws db = (Inl e, db') \<Longrightarrow> db' = db"
  by (auto simp: insert_waypoints_def split: sum.splits)

lemma insert_waypoints_Inr:
  assumes "insert_waypoints nws db = (Inr rows, db')"
  shows "db' = db\<lparr>waypoints := waypoints db @ rows, next_uuid := next_uuid db + length nws\<rparr>
   \<and> map w_id rows = [next_uuid db ..< next_uuid db + length nws]
   \<and> map route_id rows = map nw_route_id nws
   \<and> map position rows = map nw_position nws
   \<and> map latitude rows = map round_scale8 (map nw_latitude nws)
   \<and> map longitude rows = map round_scale8 (map nw_longitude nws)
   \<and> map w_name rows = map nw_name nws
   \<and> list_all (\<lambda>nw. nw_route_id nw \<in> r_id ` set (routes db)) nws"
proof -
  from assms have mt: "map_throwing (waypoint_row db)
      (zip nws [next_uuid db ..< next_uuid db + length nws]) = Inr rows"
    and db': "db' = db\<lparr>waypoints := waypoints db @ rows,
                       next_uuid := next_uuid db + length nws\<rparr>"
    by (auto simp: insert_waypoints_def split: sum.splits)
  from rows_of_list_all2 [OF map_throwing_Inr [OF mt]] db' show ?thesis
    by simp
qed

lemma map_zip_fst: "length ys = length xs \<Longrightarrow> map (\<lambda>p. f (fst p)) (zip xs ys) = map f xs"
  by (induction xs ys rule: list_induct2') auto

lemma map_zip_snd: "length ys = length xs \<Longrightarrow> map (\<lambda>p. f (snd p)) (zip xs ys) = map f ys"
  by (induction xs ys rule: list_induct2') auto

lemma waypointsData_fields:
  "length (waypointsData rid wps) = length wps"
  "map nw_route_id (waypointsData rid wps) = replicate (length wps) rid"
  "map nw_position (waypointsData rid wps) = map int [0 ..< length wps]"
  "map nw_latitude (waypointsData rid wps) = map wi_latitude wps"
  "map nw_longitude (waypointsData rid wps) = map wi_longitude wps"
  "map nw_name (waypointsData rid wps) = map wi_name wps"
  by (simp_all add: waypointsData_def case_prod_unfold comp_def map_replicate_const
      map_zip_fst map_zip_snd)

lemma sort_key_positions:
  assumes "map position rows = map int [0 ..< n]"
  shows "sort_key position rows = rows"
proof -
  have "sorted (map int [0 ..< n])"
    by (simp add: sorted_map strict_sorted_iff mono_def sorted_wrt_map)
  with assms show ?thesis
    by (simp add: sort_key_id_if_sorted)
qed

lemma round_to_grid_error:
  fixes y c :: rat
  assumes "0 < c"
  shows "\<bar>of_int \<lfloor>y * c + 1 / 2\<rfloor> / c - y\<bar> \<le> 1 / (2 * c)"
proof -
  define n where "n = \<lfloor>y * c + 1 / 2\<rfloor>"
  have "of_int n \<le> y * c + 1 / 2" "y * c + 1 / 2 < of_int n + 1"
    unfolding n_def by linarith+
  then have "\<bar>of_int n - y * c\<bar> \<le> 1 / 2"
    by linarith
  then have "\<bar>of_int n - y * c\<bar> / c \<le> (1 / 2) / c"
    using assms by (rule_tac divide_right_mono) auto
  moreover have "of_int n / c - y = (of_int n - y * c) / c"
    using assms by (simp add: diff_divide_distrib)
  then have "\<bar>of_int n / c - y\<bar> = \<bar>of_int n - y * c\<bar> / c"
    using assms by (simp only: abs_divide)
  ultimately show ?thesis
    unfolding n_def by simp
qed

lemma round_scale8_error: "\<bar>round_scale8 x - x\<bar> \<le> 1 / (2 * 10 ^ 8)"
proof (cases "0 \<le> x")
  case True
  then show ?thesis
    using round_to_grid_error [of "10 ^ 8" x] by (simp add: round_scale8_def)
next
  case False
  have "\<bar>- (of_int \<lfloor>- x * 10 ^ 8 + 1 / 2\<rfloor> / 10 ^ 8) - x\<bar>
      = \<bar>of_int \<lfloor>(- x) * 10 ^ 8 + 1 / 2\<rfloor> / 10 ^ 8 - (- x)\<bar>"
  proof -
    have "- (of_int \<lfloor>- x * 10 ^ 8 + 1 / 2\<rfloor> / 10 ^ 8) - x
        = - (of_int \<lfloor>(- x) * 10 ^ 8 + 1 / 2\<rfloor> / 10 ^ 8 - (- x))"
      by simp
    then show ?thesis
      by (simp only: abs_minus_cancel)
  qed
  with False show ?thesis
    using round_to_grid_error [of "10 ^ 8" "- x"] by (simp add: round_scale8_def)
qed






lemma transaction_Inl: "transaction body db = (Inl e, db') \<Longrightarrow> db' = db"
  by (auto simp: transaction_def split: prod.splits sum.splits)

lemma replaceWaypoints_Inl: "replaceWaypoints rid nws db = (Inl e, db') \<Longrightarrow> db' = db"
  unfolding replaceWaypoints_def by (rule transaction_Inl)

lemma replaceWaypoints_Inr:
  assumes "replaceWaypoints rid nws db = (Inr x, db')"
  shows "\<exists>rows. waypoints db' = filter (\<lambda>w. route_id w \<noteq> rid) (waypoints db) @ rows
     \<and> routes db' = routes db
     \<and> map route_id rows = map nw_route_id nws
     \<and> map position rows = map nw_position nws
     \<and> map latitude rows = map round_scale8 (map nw_latitude nws)
     \<and> map longitude rows = map round_scale8 (map nw_longitude nws)
     \<and> map w_name rows = map nw_name nws"
proof (cases "nws = []")
  case True
  with assms have "db' = db\<lparr>waypoints := filter (\<lambda>w. route_id w \<noteq> rid) (waypoints db)\<rparr>"
    by (simp add: replaceWaypoints_def transaction_def Let_def)
  with True show ?thesis by simp
next
  case False
  define tx1 where "tx1 = db\<lparr>waypoints := filter (\<lambda>w. route_id w \<noteq> rid) (waypoints db)\<rparr>"
  from assms False obtain rows where ins: "insert_waypoints nws tx1 = (Inr rows, db')"
    by (auto simp: replaceWaypoints_def transaction_def Let_def tx1_def
        split: prod.splits sum.splits)
  from insert_waypoints_Inr [OF ins] show ?thesis
    by (auto simp: tx1_def)
qed

lemma updateRoute_waypoints:
  "updateRoute rid u n d now db = (r, db1) \<Longrightarrow> waypoints db1 = waypoints db"
  by (auto simp: updateRoute_def Let_def)

text \<open>
  The \<open>update\<close> on the repositories replaces atomically. Given a waypoints array, of
  whatever length, either the call fails and the stored waypoints are exactly those from
  before the call, or it succeeds, the waypoints of every other route are untouched, and
  the waypoints of the route are exactly one row per element of the new array, in the
  array's order, with positions \<open>0, ..., n - 1\<close>: \<open>replaceWaypoints\<close> deletes and
  inserts inside one transaction.
\<close>

lemma update_on_repositories_replaces_atomically:
  assumes "routeRouter_update ctx input now db = (res, db')"
    and "ui_waypoints input = Some wps"
  shows "(\<exists>e. res = Inl e \<and> waypoints db' = waypoints db)
     \<or> (res = Inr Success
        \<and> filter (\<lambda>w. route_id w \<noteq> ui_id input) (waypoints db')
            = filter (\<lambda>w. route_id w \<noteq> ui_id input) (waypoints db)
        \<and> filter (\<lambda>w. route_id w = ui_id input) (waypoints db')
            = getWaypointsByRouteId (ui_id input) db'
        \<and> map position (getWaypointsByRouteId (ui_id input) db') = map int [0 ..< length wps]
        \<and> map latitude (getWaypointsByRouteId (ui_id input) db')
            = map round_scale8 (map wi_latitude wps)
        \<and> map longitude (getWaypointsByRouteId (ui_id input) db')
            = map round_scale8 (map wi_longitude wps)
        \<and> map w_name (getWaypointsByRouteId (ui_id input) db') = map wi_name wps)"
proof (cases res)
  case (Inl e)
  have "waypoints db' = waypoints db"
  proof (cases "userId ctx = None \<or> userId ctx = Some []")
    case True
    with assms(1) show ?thesis
      by (auto simp: routeRouter_update_def protectedProcedure_def)
  next
    case False
    then obtain u where u: "userId ctx = Some u" "u \<noteq> []" by auto
    show ?thesis
    proof (cases "ui_name input \<noteq> None \<or> ui_description input \<noteq> None")
      case meta: True
      obtain r db1 where upd: "updateRoute (ui_id input) u (ui_name input)
          (ui_description input) now db = (r, db1)"
        by (cases "updateRoute (ui_id input) u (ui_name input) (ui_description input) now db")
      note w1 = updateRoute_waypoints [OF upd]
      show ?thesis
      proof (cases r)
        case None
        with assms(1) u meta upd have "db' = db1"
          by (auto simp: routeRouter_update_def protectedProcedure_def Let_def)
        with w1 show ?thesis by simp
      next
        case (Some updated)
        with assms u meta upd Inl have "replaceWaypoints (ui_id input)
            (waypointsData (ui_id input) wps) db1 = (Inl e, db')"
          by (auto simp: routeRouter_update_def protectedProcedure_def Let_def
              split: prod.splits sum.splits)
        from replaceWaypoints_Inl [OF this] w1 show ?thesis by simp
      qed
    next
      case False
      with assms u Inl have "replaceWaypoints (ui_id input)
          (waypointsData (ui_id input) wps) db = (Inl e, db')"
        by (auto simp: routeRouter_update_def protectedProcedure_def Let_def
            split: prod.splits sum.splits)
      from replaceWaypoints_Inl [OF this] show ?thesis by simp
    qed
  qed
  with Inl show ?thesis by simp
next
  case (Inr ok)
  then have ok: "res = Inr Success" by (cases ok) simp
  from assms(1) Inr obtain u where u: "userId ctx = Some u" "u \<noteq> []"
    by (auto simp: routeRouter_update_def protectedProcedure_def split: option.splits if_splits)
  from assms u Inr obtain db1 x where
    w1: "waypoints db1 = waypoints db"
    and rep: "replaceWaypoints (ui_id input) (waypointsData (ui_id input) wps) db1 = (Inr x, db')"
    by (auto simp: routeRouter_update_def protectedProcedure_def Let_def
        split: prod.splits sum.splits if_splits option.splits dest: updateRoute_waypoints)
  from replaceWaypoints_Inr [OF rep] w1 obtain rows where
    w': "waypoints db' = filter (\<lambda>w. route_id w \<noteq> ui_id input) (waypoints db) @ rows"
    and rid: "map route_id rows = replicate (length wps) (ui_id input)"
    and pos: "map position rows = map int [0 ..< length wps]"
    and lat: "map latitude rows = map round_scale8 (map wi_latitude wps)"
    and lon: "map longitude rows = map round_scale8 (map wi_longitude wps)"
    and nam: "map w_name rows = map wi_name wps"
    by (auto simp: waypointsData_fields)
  have "\<forall>w \<in> set rows. route_id w = ui_id input"
  proof
    fix w assume "w \<in> set rows"
    then have "route_id w \<in> set (map route_id rows)" by simp
    then show "route_id w = ui_id input" by (simp add: rid)
  qed
  then have keep: "filter (\<lambda>w. route_id w = ui_id input) rows = rows"
    and drop: "filter (\<lambda>w. route_id w \<noteq> ui_id input) rows = []"
    by (simp_all add: filter_id_conv filter_empty_conv)
  have mine: "filter (\<lambda>w. route_id w = ui_id input) (waypoints db') = rows"
    by (simp add: w' keep)
  then have sorted: "getWaypointsByRouteId (ui_id input) db' = rows"
    by (simp add: getWaypointsByRouteId_def sort_key_positions [OF pos])
  have others: "filter (\<lambda>w. route_id w \<noteq> ui_id input) (waypoints db')
      = filter (\<lambda>w. route_id w \<noteq> ui_id input) (waypoints db)"
    by (simp add: w' drop)
  from ok others mine sorted pos lat lon nam show ?thesis
    by simp
qed


lemmas persistence_defs =
  routeRouter_create_def routeRouter_get_def routeRouter_update_def
  routeRouter_removeWaypoint_def protectedProcedure_def
  createRoute_def createWaypoints_def getRouteWithWaypoints_def getWaypointsByRouteId_def
  updateRoute_def deleteWaypoint_def replaceWaypoints_def transaction_def
  waypointsData_def insert_waypoints_def waypoint_row_def
  decimal_column_def round_scale8_def bindE_def Let_def upt_rec floor_rat_numeral


lemma sample_created:
  "routeRouter_create \<lparr>userId = Some ''user_x''\<rparr> sample_create_input 1000 empty_database
     = (Inr sample_route, sample_database)"
  by (simp add: persistence_defs sample_create_input_def empty_database_def
      sample_route_def sample_database_def)


text \<open>Read without the \<open>orderBy\<close>, the reordered rows come back as they are held.\<close>

lemma stored_order_is_not_position_order:
  "map position (filter (\<lambda>w. route_id w = 0) (waypoints sample_database_reordered)) = [1, 0]"
  by (simp add: sample_database_reordered_def sample_database_def)


lemma sample_updated:
  "routeRouter_update \<lparr>userId = Some ''user_x''\<rparr> sample_update_input 2000 sample_database
     = (Inr Success, sample_database_updated)"
  by (simp add: persistence_defs sample_update_input_def sample_waypoint_inputs_def
      sample_database_def sample_route_def sample_database_updated_def)

lemma update_on_repositories_sample:
  "routeRouter_update \<lparr>userId = Some ''user_x''\<rparr> sample_update_input 2000 sample_database
     = (Inr Success, sample_database_updated)
   \<and> ui_waypoints sample_update_input = Some sample_waypoint_inputs
   \<and> map position (getWaypointsByRouteId 0 sample_database_updated) = [0, 1, 2]
   \<and> map w_name (getWaypointsByRouteId 0 sample_database_updated)
       = [Some ''Los Angeles'', None, Some ''Chicago'']"
proof -
  have wps: "ui_waypoints sample_update_input = Some sample_waypoint_inputs"
    and rid: "ui_id sample_update_input = 0"
    by (simp_all add: sample_update_input_def)
  have pos: "map int [0 ..< length sample_waypoint_inputs] = [0, 1, 2]"
    and nam: "map wi_name sample_waypoint_inputs = [Some ''Los Angeles'', None, Some ''Chicago'']"
    by (simp_all add: sample_waypoint_inputs_def upt_rec)
  from update_on_repositories_replaces_atomically [OF sample_updated wps]
  have "map position (getWaypointsByRouteId 0 sample_database_updated) = [0, 1, 2]
      \<and> map w_name (getWaypointsByRouteId 0 sample_database_updated)
          = [Some ''Los Angeles'', None, Some ''Chicago'']"
    unfolding rid pos nam
    by (elim disjE exE conjE) (simp, intro conjI, assumption+)
  with sample_updated wps show ?thesis
    by (intro conjI) (elim conjE, assumption)+
qed

lemma wf_insert_waypoints:
  assumes "wf_database db" and "insert_waypoints nws db = (res, db')"
  shows "wf_database db'"
proof (cases res)
  case (Inl e)
  with assms insert_waypoints_Inl [of nws db e db'] show ?thesis by simp
next
  case (Inr rows)
  with assms(2) have ins: "insert_waypoints nws db = (Inr rows, db')" by simp
  from insert_waypoints_Inr [OF ins]
  have db': "db' = db\<lparr>waypoints := waypoints db @ rows,
                     next_uuid := next_uuid db + length nws\<rparr>"
    and ids: "map w_id rows = [next_uuid db ..< next_uuid db + length nws]"
    and rid: "map route_id rows = map nw_route_id nws"
    and fk: "list_all (\<lambda>nw. nw_route_id nw \<in> r_id ` set (routes db)) nws"
    by simp_all
  have new_ids: "w_id w < next_uuid db + length nws" if "w \<in> set rows" for w
  proof -
    from that have "w_id w \<in> set (map w_id rows)" by simp
    then show ?thesis by (simp add: ids)
  qed
  have new_fk: "route_id w \<in> r_id ` set (routes db)" if "w \<in> set rows" for w
  proof -
    from that have "route_id w \<in> set (map route_id rows)" by simp
    then have "route_id w \<in> nw_route_id ` set nws" by (simp add: rid)
    with fk show ?thesis by (auto simp: list_all_iff)
  qed
  from assms(1) new_ids new_fk show ?thesis
    by (fastforce simp: wf_database_def db' list_all_iff)
qed

lemma wf_createRoute:
  "wf_database db \<Longrightarrow> createRoute u n d now db = (r, db') \<Longrightarrow> wf_database db'"
  by (fastforce simp: wf_database_def createRoute_def Let_def list_all_iff)

lemma wf_updateRoute:
  assumes "wf_database db" and "updateRoute rid u n d now db = (r, db')"
  shows "wf_database db'"
proof -
  define hit :: "Route \<Rightarrow> bool" where "hit = (\<lambda>r. r_id r = rid \<and> user_id r = u)"
  define upd :: "Route \<Rightarrow> Route" where "upd = (\<lambda>r. r\<lparr>r_name := (case n of None \<Rightarrow> r_name r | Some n \<Rightarrow> n),
      description := (case d of None \<Rightarrow> description r | Some d \<Rightarrow> Some d), updated_at := now\<rparr>)"
  from assms(2) have db': "db' = db\<lparr>routes := map (\<lambda>r. if hit r then upd r else r) (routes db)\<rparr>"
    by (auto simp: updateRoute_def Let_def hit_def upd_def)
  have ids: "map r_id (map (\<lambda>r. if hit r then upd r else r) (routes db)) = map r_id (routes db)"
    by (induction "routes db") (auto simp: upd_def)
  then have "r_id ` set (map (\<lambda>r. if hit r then upd r else r) (routes db)) = r_id ` set (routes db)"
    by (metis image_set)
  with assms(1) ids show ?thesis
    unfolding wf_database_def db' list_all_iff
    by (auto simp: upd_def simp del: map_map)
qed

lemma wf_deleteRoute:
  assumes "wf_database db" and "deleteRoute rid u db = (r, db')"
  shows "wf_database db'"
proof (cases "filter (\<lambda>r. r_id r = rid \<and> user_id r = u) (routes db)")
  case Nil
  with assms show ?thesis by (simp add: deleteRoute_def Let_def)
next
  case (Cons x xs)
  with assms(2) have db': "db' = db\<lparr>routes := filter (\<lambda>r. \<not> (r_id r = rid \<and> user_id r = u)) (routes db),
      waypoints := filter (\<lambda>w. route_id w \<noteq> rid) (waypoints db)\<rparr>"
    by (auto simp: deleteRoute_def Let_def)
  from assms(1) show ?thesis
    unfolding wf_database_def db' list_all_iff
    by (auto simp: distinct_map_filter)
qed

lemma wf_deleteWaypoint:
  "wf_database db \<Longrightarrow> deleteWaypoint wid db = (r, db') \<Longrightarrow> wf_database db'"
  by (auto simp: wf_database_def deleteWaypoint_def list_all_iff)

lemma wf_replaceWaypoints:
  assumes "wf_database db" and "replaceWaypoints rid nws db = (res, db')"
  shows "wf_database db'"
proof (cases res)
  case (Inl e)
  with assms replaceWaypoints_Inl [of rid nws db e db'] show ?thesis by simp
next
  case (Inr x)
  define tx1 where "tx1 = db\<lparr>waypoints := filter (\<lambda>w. route_id w \<noteq> rid) (waypoints db)\<rparr>"
  from assms(1) have wf1: "wf_database tx1"
    by (auto simp: wf_database_def tx1_def list_all_iff)
  show ?thesis
  proof (cases "nws = []")
    case True
    with assms(2) have "db' = tx1"
      by (simp add: replaceWaypoints_def transaction_def Let_def tx1_def)
    with wf1 show ?thesis by simp
  next
    case False
    with assms(2) Inr obtain rows where "insert_waypoints nws tx1 = (Inr rows, db')"
      by (auto simp: replaceWaypoints_def transaction_def Let_def tx1_def
          split: prod.splits sum.splits)
    from wf_insert_waypoints [OF wf1 this] show ?thesis .
  qed
qed

text \<open>Every procedure keeps the constraints, so they hold in every state reached.\<close>

lemma wf_routeRouter_create:
  assumes "wf_database db" and "routeRouter_create ctx input now db = (res, db')"
  shows "wf_database db'"
proof (cases "userId ctx = None \<or> userId ctx = Some [] \<or> ci_name input = []")
  case True
  with assms show ?thesis
    by (auto simp: routeRouter_create_def protectedProcedure_def split: option.splits if_splits)
next
  case False
  then obtain u where u: "userId ctx = Some u" "u \<noteq> []" "ci_name input \<noteq> []" by auto
  obtain r db1 where cr: "createRoute u (ci_name input) (ci_description input) now db = (r, db1)"
    by (cases "createRoute u (ci_name input) (ci_description input) now db")
  note wf1 = wf_createRoute [OF assms(1) cr]
  show ?thesis
  proof (cases "ci_waypoints input = []")
    case True
    with assms(2) u cr have "db' = db1"
      by (auto simp: routeRouter_create_def protectedProcedure_def)
    with wf1 show ?thesis by simp
  next
    case False
    then have len: "waypointsData (r_id r) (ci_waypoints input) \<noteq> []"
      using waypointsData_fields(1) [of "r_id r" "ci_waypoints input"] by auto
    obtain res2 db2 where ins: "insert_waypoints (waypointsData (r_id r) (ci_waypoints input)) db1
        = (res2, db2)"
      by (cases "insert_waypoints (waypointsData (r_id r) (ci_waypoints input)) db1")
    with assms(2) u cr False len have "db' = db2"
      by (auto simp: routeRouter_create_def protectedProcedure_def createWaypoints_def
          split: sum.splits)
    with wf_insert_waypoints [OF wf1 ins] show ?thesis by simp
  qed
qed

lemma wf_routeRouter_update:
  assumes "wf_database db" and "routeRouter_update ctx input now db = (res, db')"
  shows "wf_database db'"
proof (cases "userId ctx = None \<or> userId ctx = Some []")
  case True
  with assms show ?thesis
    by (auto simp: routeRouter_update_def protectedProcedure_def)
next
  case False
  then obtain u where u: "userId ctx = Some u" "u \<noteq> []" by auto
  obtain r db1 where upd: "updateRoute (ui_id input) u (ui_name input) (ui_description input)
      now db = (r, db1)"
    by (cases "updateRoute (ui_id input) u (ui_name input) (ui_description input) now db")
  note wf1 = wf_updateRoute [OF assms(1) upd]
  from assms(2) u upd have "db' = db \<or> db' = db1
      \<or> (\<exists>wps r2. replaceWaypoints (ui_id input) (waypointsData (ui_id input) wps) db = (r2, db'))
      \<or> (\<exists>wps r2. replaceWaypoints (ui_id input) (waypointsData (ui_id input) wps) db1 = (r2, db'))"
    by (auto simp: routeRouter_update_def protectedProcedure_def Let_def
        split: option.splits if_splits prod.splits sum.splits)
  with assms(1) wf1 show ?thesis
    by (auto dest: wf_replaceWaypoints)
qed

lemma wf_routeRouter_delete:
  "wf_database db \<Longrightarrow> routeRouter_delete ctx rid db = (res, db') \<Longrightarrow> wf_database db'"
  by (auto simp: routeRouter_delete_def protectedProcedure_def
      split: option.splits if_splits prod.splits dest: wf_deleteRoute)

lemma wf_routeRouter_removeWaypoint:
  "wf_database db \<Longrightarrow> routeRouter_removeWaypoint ctx wid db = (res, db') \<Longrightarrow> wf_database db'"
  by (auto simp: routeRouter_removeWaypoint_def protectedProcedure_def
      split: option.splits if_splits prod.splits dest: wf_deleteWaypoint)

lemma wf_routeRouter_addWaypoint:
  assumes "wf_database db" and "routeRouter_addWaypoint ctx input db = (res, db')"
  shows "wf_database db'"
proof -
  from assms(2) have "db' = db \<or> (\<exists>nw r2. insert_waypoints [nw] db = (r2, db'))"
    by (auto simp: routeRouter_addWaypoint_def protectedProcedure_def createWaypoint_def Let_def
        split: option.splits if_splits prod.splits sum.splits)
  with assms(1) show ?thesis
    by (auto dest: wf_insert_waypoints)
qed


lemma map_throwing_all_Inr:
  "\<forall>x \<in> set xs. \<exists>y. f x = Inr y \<Longrightarrow> \<exists>ys. map_throwing f xs = Inr ys"
  by (induction xs) (auto simp: bindE_def)

lemma decimal_column_in_range:
  assumes "\<bar>x\<bar> \<le> b" and "b + 1 \<le> 10 ^ (p - 8)"
  shows "decimal_column p x = Some (round_scale8 x)"
proof -
  from round_scale8_error [of x] have "\<bar>round_scale8 x - x\<bar> < 1"
    by (rule le_less_trans) simp
  with assms(1) have "\<bar>round_scale8 x\<bar> < b + 1" by linarith
  with assms(2) have "\<bar>round_scale8 x\<bar> < 10 ^ (p - 8)" by linarith
  then show ?thesis by (simp add: decimal_column_def)
qed

text \<open>With a name and coordinates in the geographic ranges, \<open>create\<close> succeeds.\<close>

lemma create_succeeds_in_range:
  assumes u: "userId ctx = Some u" "u \<noteq> []" and name: "ci_name input \<noteq> []"
    and range: "list_all (\<lambda>wp. \<bar>wi_latitude wp\<bar> \<le> 90 \<and> \<bar>wi_longitude wp\<bar> \<le> 180)
                  (ci_waypoints input)"
    and len: "length (ci_waypoints input) \<le> 2147483648"
  shows "\<exists>route db'. routeRouter_create ctx input now db = (Inr route, db')"
proof -
  obtain r db1 where cr: "createRoute u (ci_name input) (ci_description input) now db = (r, db1)"
    by (cases "createRoute u (ci_name input) (ci_description input) now db")
  then have stored: "r_id r \<in> r_id ` set (routes db1)"
    by (auto simp: createRoute_def Let_def)
  define nws where "nws = waypointsData (r_id r) (ci_waypoints input)"
  have row: "\<exists>y. waypoint_row db1 x = Inr y"
    if "x \<in> set (zip nws [next_uuid db1 ..< next_uuid db1 + length nws])" for x
  proof -
    obtain nw i where x: "x = (nw, i)" by (cases x)
    with that have "nw \<in> set nws" by (auto dest: set_zip_leftD)
    then obtain wp k where wp: "wp \<in> set (ci_waypoints input)"
      and k: "k < length (ci_waypoints input)"
      and nw: "nw = \<lparr>nw_route_id = r_id r, nw_latitude = wi_latitude wp,
                     nw_longitude = wi_longitude wp, nw_name = wi_name wp,
                     nw_position = int k\<rparr>"
    proof -
      from \<open>nw \<in> set nws\<close> obtain wp k where
        in_zip: "(wp, k) \<in> set (zip (ci_waypoints input) [0 ..< length (ci_waypoints input)])"
        and "nw = \<lparr>nw_route_id = r_id r, nw_latitude = wi_latitude wp,
                     nw_longitude = wi_longitude wp, nw_name = wi_name wp,
                     nw_position = int k\<rparr>"
        unfolding nws_def waypointsData_def by auto
      moreover from in_zip have "wp \<in> set (ci_waypoints input)"
        by (rule set_zip_leftD)
      moreover from in_zip have "k < length (ci_waypoints input)"
        by (auto dest: set_zip_rightD)
      ultimately show ?thesis
        using that by blast
    qed
    from range wp have "\<bar>wi_latitude wp\<bar> \<le> 90" "\<bar>wi_longitude wp\<bar> \<le> 180"
      by (auto simp: list_all_iff)
    then have "decimal_column 10 (wi_latitude wp) = Some (round_scale8 (wi_latitude wp))"
      "decimal_column 11 (wi_longitude wp) = Some (round_scale8 (wi_longitude wp))"
      by (auto intro: decimal_column_in_range)
    with stored k len show ?thesis
      by (simp add: x nw waypoint_row_def)
  qed
  then obtain rows where "map_throwing (waypoint_row db1)
      (zip nws [next_uuid db1 ..< next_uuid db1 + length nws]) = Inr rows"
    using map_throwing_all_Inr [of "zip nws [next_uuid db1 ..< next_uuid db1 + length nws]"
        "waypoint_row db1"]
    by blast
  then have "\<exists>db2. insert_waypoints nws db1 = (Inr rows, db2)"
    by (simp add: insert_waypoints_def)
  with u name cr show ?thesis
    by (auto simp: routeRouter_create_def protectedProcedure_def createWaypoints_def nws_def
        waypointsData_fields)
qed

text \<open>
  Claim C5. \<open>removeWaypoint\<close> is claimed to check that the caller owns the waypoint's
  route and to fail otherwise. The procedure deletes by waypoint id alone: after
  \<open>user_x\<close> has saved the sample route, \<open>user_y\<close> removes its first waypoint and the
  call succeeds.
\<close>

theorem removeWaypoint_ignores_owner:
  "routeRouter_create \<lparr>userId = Some ''user_x''\<rparr> sample_create_input 1000 empty_database
     = (Inr sample_route, sample_database)
   \<and> map user_id (routes sample_database) = [''user_x'']
   \<and> map (\<lambda>w. (w_id w, route_id w)) (waypoints sample_database) = [(1, 0), (2, 0)]
   \<and> fst (routeRouter_removeWaypoint \<lparr>userId = Some ''user_y''\<rparr> 1 sample_database)
       = Inr Success
   \<and> map (\<lambda>w. (w_id w, route_id w))
         (waypoints (snd (routeRouter_removeWaypoint \<lparr>userId = Some ''user_y''\<rparr> 1
                            sample_database))) = [(2, 0)]"
  by (simp add: sample_created)
    (simp add: sample_database_def sample_route_def routeRouter_removeWaypoint_def
      protectedProcedure_def deleteWaypoint_def)

text \<open>The sibling procedure \<open>addWaypoint\<close> does refuse a caller who is not the owner.\<close>

lemma addWaypoint_checks_owner:
  "routeRouter_addWaypoint \<lparr>userId = Some ''user_y''\<rparr>
     \<lparr>ai_routeId = 0, ai_latitude = 0, ai_longitude = 0, ai_name = None\<rparr> sample_database
   = (Inl (Thrown ''Unauthorized: You can only add waypoints to your own routes''),
      sample_database)"
  by (simp add: routeRouter_addWaypoint_def protectedProcedure_def getRouteWithWaypoints_def
      sample_database_def sample_route_def)

text \<open>
  Claim C6. \<open>create\<close> is claimed to leave no route behind when the insertion of its
  waypoints fails. The two inserts are separate statements outside any transaction: with
  a latitude that does not fit its column the second insert fails, the call throws, and
  the route stays in the table without waypoints.
\<close>

theorem create_failure_leaves_route:
  "routeRouter_create \<lparr>userId = Some ''user_x''\<rparr>
     \<lparr>ci_name = ''Far north'', ci_description = None,
      ci_waypoints = [\<lparr>wi_latitude = 1000, wi_longitude = 0, wi_name = None\<rparr>]\<rparr>
     1000 empty_database
   = (Inl (DatabaseError ''numeric field overflow''),
      \<lparr>routes = [\<lparr>r_id = 0, user_id = ''user_x'', r_name = ''Far north'',
                   description = None, created_at = 1000, updated_at = 1000\<rparr>],
       waypoints = [], next_uuid = 1\<rparr>)"
  by (simp add: persistence_defs empty_database_def)

text \<open>
  Claim C8. \<open>update\<close> is claimed to replace the waypoints of a route atomically, within
  one transaction, whatever array it is given. The \<open>update\<close> of lib/trpc/routes.ts
  deletes and inserts in two separate requests: on the sample database, where route 0
  has two waypoints, an array whose latitude does not fit its column makes the insert
  fail after the delete has been done, the call throws, and the route is left with no
  waypoint at all, neither the old ones nor the new one.
\<close>

theorem update_supabase_failure_loses_waypoints:
  "map (\<lambda>w. (w_id w, position w)) (getWaypointsByRouteId 0 sample_database) = [(1, 0), (2, 1)]
   \<and> routeRouter_update_supabase
       \<lparr>ui_id = 0, ui_name = None, ui_description = None,
        ui_waypoints = Some [\<lparr>wi_latitude = 1000, wi_longitude = 0, wi_name = None\<rparr>]\<rparr>
       2000 sample_database
     = (Inl (DatabaseError ''numeric field overflow''),
        \<lparr>routes = [sample_route], waypoints = [], next_uuid = 3\<rparr>)"
  by (simp add: routeRouter_update_supabase_def persistence_defs sample_database_def
      sample_route_def)

text \<open>On the same input the \<open>update\<close> on the repositories leaves the database as it was.\<close>

lemma update_failure_keeps_waypoints:
  "routeRouter_update \<lparr>userId = Some ''user_x''\<rparr>
       \<lparr>ui_id = 0, ui_name = None, ui_description = None,
        ui_waypoints = Some [\<lparr>wi_latitude = 1000, wi_longitude = 0, wi_name = None\<rparr>]\<rparr>
       2000 sample_database
     = (Inl (DatabaseError ''numeric field overflow''), sample_database)"
  by (simp add: persistence_defs sample_database_def sample_route_def)

end
